theory Spec2Isabelle
  imports Complex_Main "HOL-Library.Sublist"
begin

section \<open>JavaScript strings\<close>

text \<open>
  A JavaScript string is a sequence of UTF-16 code units. A code unit is modelled as a
  natural number, so that every character the source matches with \<^verbatim>\<open>\s\<close> (all of
  them in the Basic Multilingual Plane) is one element of the list. \<open>str\<close> embeds an
  ASCII literal; code units outside printable ASCII (umlauts, the double quote, the line
  feed) are written as numbers.
\<close>

type_synonym jsstring = "nat list"

definition str :: "string \<Rightarrow> jsstring" where
  "str s = map of_char s"

text \<open>
  The characters of \<^verbatim>\<open>\s\<close> and of \<^verbatim>\<open>String.prototype.trim\<close>: the ECMAScript
  WhiteSpace and LineTerminator productions.
\<close>

definition is_space :: "nat \<Rightarrow> bool" where
  "is_space c =
     (c = 9 \<or> c = 10 \<or> c = 11 \<or> c = 12 \<or> c = 13 \<or> c = 32 \<or> c = 160 \<or> c = 5760 \<or>
      (8192 \<le> c \<and> c \<le> 8202) \<or> c = 8232 \<or> c = 8233 \<or> c = 8239 \<or> c = 8287 \<or>
      c = 12288 \<or> c = 65279)"

text \<open>
  \<^verbatim>\<open>text.split(/\s+/)\<close>: the pieces between the maximal runs of white space. A run at
  the start or at the end of the text leaves an empty piece there, and the empty text
  gives the single piece \<^verbatim>\<open>""\<close>. \<open>cur\<close> is the piece being read.
\<close>

function split_ws :: "jsstring \<Rightarrow> jsstring \<Rightarrow> jsstring list" where
  "split_ws cur [] = [cur]"
| "split_ws cur (c # cs) =
     (if is_space c then cur # split_ws [] (dropWhile is_space cs)
      else split_ws (cur @ [c]) cs)"
  by pat_completeness auto
termination
  by (relation "measure (\<lambda>(cur, cs). length cs)")
     (auto simp: length_dropWhile_le le_imp_less_Suc)

definition trim :: "jsstring \<Rightarrow> jsstring" where
  "trim s = rev (dropWhile is_space (rev (dropWhile is_space s)))"

text \<open>The decimal digits of a number, as the template literal prints \<^verbatim>\<open>Date.now()\<close>.\<close>

fun decimal :: "nat \<Rightarrow> jsstring" where
  "decimal n = (if n < 10 then [48 + n] else decimal (n div 10) @ [48 + n mod 10])"

declare decimal.simps [simp del]

section \<open>Data model\<close>

text \<open>
  The interface \<^verbatim>\<open>Note\<close>; its field \<^verbatim>\<open>id\<close> is \<open>note_id\<close> here. Times and
  token counts are natural numbers.
\<close>

record Note =
  note_id :: jsstring
  title :: jsstring
  rawTranscription :: jsstring
  polishedNoteMarkdown :: jsstring
  polishedNoteHtml :: jsstring
  summary :: jsstring
  timestamp :: nat
  totalTokens :: nat

text \<open>
  The value under the key \<^verbatim>\<open>voiceNotesHistory\<close> of the local storage: missing, a
  text that \<^verbatim>\<open>JSON.parse\<close> rejects, or the JSON of an array of notes.
\<close>

datatype stored = Absent | Corrupt | Json "Note list"

text \<open>
  The generative service. A request is a list of parts; the call returns a text or throws
  (the message of the error). A response whose text is missing makes
  \<^verbatim>\<open>estimateTokens\<close> throw before any token is booked, which the callers' handlers
  treat as a thrown call.
\<close>

datatype part = TextPart jsstring | InlineData jsstring jsstring

datatype response = Text jsstring | Throws jsstring

text \<open>
  What the program does not decide: the service's answer to the \<open>k\<close>-th call of the
  session, and the markdown renderer \<^verbatim>\<open>marked.parse\<close>.
\<close>

record services =
  generateContent :: "nat \<Rightarrow> part list \<Rightarrow> response"
  marked_parse :: "jsstring \<Rightarrow> jsstring"

text \<open>
  The fields of \<^verbatim>\<open>VoiceNotesApp\<close> that the note session and the pipeline read and
  write, the stored history, and \<open>calls\<close>: the log of the service calls made so far,
  each with its answer. Writes to the page (panels, status line) are left out: the
  program never reads them back, except the editor's title, which
  \<open>loadNoteFromHistory\<close> takes as an argument.
\<close>

record app =
  currentNote :: "Note option"
  currentSummary :: jsstring
  currentSessionTokens :: nat
  isRecording :: bool
  voiceNotesHistory :: stored
  calls :: "(part list \<times> response) list"

section \<open>Fixed texts of the pipeline\<close>

definition transcribeInstruction :: jsstring where
  "transcribeInstruction =
     str ''Erstelle ein vollst'' @ [228] @
     str ''ndiges, detailliertes Transkript dieses Audios auf Deutsch.''"

definition polishInstruction :: jsstring where
  "polishInstruction =
     str ''Nimm dieses Roh-Transkript von gesprochenen Gedanken und strukturiere '' @
     str ''es in eine klare, zusammenh'' @ [228] @
     str ''ngende Notiz unter Verwendung von Markdown. Die Ausgabe soll '' @
     str ''auf Deutsch sein.'' @ [10] @ str ''Organisiere den Inhalt logisch mit '' @ [220] @
     str ''berschriften, Unter'' @ [252] @ str ''berschriften (falls zutreffend), Aufz'' @
     [228] @ str ''hlungspunkten oder nummerierten Listen, je nach Inhalt.'' @ [10] @
     str ''Verwende Fettung zur Hervorhebung von Schl'' @ [252] @
     str ''sselbegriffen oder Aktionspunkten.'' @ [10] @
     str ''Stelle sicher, dass alle Kernideen aus dem Transkript korrekt '' @
     str ''erfasst werden.'' @ [10] @ str ''Entferne F'' @ [252] @ str ''llw'' @ [246] @
     str ''rter (z.B. '' @ [34, 228] @ str ''h'' @ [34] @ str '', '' @ [34, 228] @ str ''hm'' @
     [34] @ str '', '' @ [34] @ str ''sozusagen'' @ [34] @ str '', '' @ [34] @ str ''wei'' @
     [223] @ str ''t du'' @ [34] @ str ''), unn'' @ [246] @
     str ''tige Wiederholungen und falsche Ans'' @ [228] @
     str ''tze, um die Lesbarkeit zu verbessern.'' @ [10] @
     str ''Das Ziel ist es, die gesprochene Diktatnotiz in ein gut strukturiertes, '' @
     str ''leicht scanbares und umsetzbares Markdown-Dokument F'' @ [220] @
     str ''R DIESE SPEZIFISCHE DIKTATNOTIZ umzuwandeln.'' @ [10] @
     str ''Wenn der Inhalt sehr kurz ist oder eine einzelne Idee darstellt, '' @
     str ''kann ein einfacher Absatz ausreichen, aber wende dennoch Markdown '' @ str ''f'' @
     [252] @ str ''r Hervorhebungen oder Links an, falls vorhanden.'' @ [10, 10] @
     str ''Roh-Transkript:'' @ [10]"

definition summaryPromptHead :: jsstring where
  "summaryPromptHead =
     str ''Du bist ein KI-Assistent, der dabei hilft, eine kontinuierliche, '' @
     str ''sich entwickelnde Zusammenfassung auf Deutsch zu erstellen.'' @ [10] @
     str ''Dir werden eine '' @ [34] @ str ''Bestehende Zusammenfassung'' @ [34] @
     str '' (die leer sein kann, wenn dies der erste Gedanke ist) und ein '' @ [34] @
     str ''Neu diktierter Gedanke'' @ [34] @ str '' gegeben.'' @ [10] @
     str ''Deine Aufgabe ist es, den '' @ [34] @ str ''Neu diktierten Gedanke'' @ [34] @
     str '' intelligent in die '' @ [34] @ str ''Bestehende Zusammenfassung'' @ [34] @
     str '' zu integrieren.'' @ [10] @ str ''Dies ist nicht nur ein einfaches Anh'' @ [228] @
     str ''ngen. Du solltest:'' @ [10] @ str ''1. Den Kontext der '' @ [34] @
     str ''Bestehenden Zusammenfassung'' @ [34] @ str '' verstehen.'' @ [10] @ str ''2. Den '' @
     [34] @ str ''Neu diktierten Gedanke'' @ [34] @ str '' verstehen.'' @ [10] @
     str ''3. Die kombinierten Informationen '' @ [252] @
     str ''berarbeiten, neu anordnen, zusammenf'' @ [252] @
     str ''hren oder zusammenfassen, um eine neue, koh'' @ [228] @ str ''rente '' @ [34] @
     str ''Aktualisierte Zusammenfassung'' @ [34] @ str '' zu erstellen.'' @ [10] @
     str ''4. Wenn der neue Gedanke eine direkte Fortsetzung ist, erweitere '' @
     str ''die Erz'' @ [228] @ str ''hlung.'' @ [10] @
     str ''5. Wenn der neue Gedanke ein neues Thema einf'' @ [252] @
     str ''hrt, organisiere es logisch innerhalb der Zusammenfassung.'' @ [10] @
     str ''6. Wenn der neue Gedanke einen vorherigen Punkt '' @ [252] @
     str ''berarbeitet oder verdeutlicht, aktualisiere die Zusammenfassung '' @
     str ''entsprechend.'' @ [10] @ str ''7. Einen konsistenten Ton und Stil beibehalten.'' @
     [10] @ str ''8. Sicherstellen, dass die Ausgabe gut strukturiert und lesbar '' @
     str ''ist.'' @ [10] @ str ''9. Die '' @ [34] @ str ''Aktualisierte Zusammenfassung'' @
     [34] @ str '' im Markdown-Format und auf Deutsch ausgeben.'' @ [10, 10] @
     str ''Bestehende Zusammenfassung:'' @ [10]"

definition noPriorSummary :: jsstring where
  "noPriorSummary =
     str ''Noch keine vorherige Zusammenfassung.''"

definition summaryPromptMid :: jsstring where
  "summaryPromptMid =
     [10, 10] @ str ''Neu diktierter Gedanke (Markdown):'' @ [10]"

definition summaryPromptTail :: jsstring where
  "summaryPromptTail =
     [10, 10] @ str ''Aktualisierte Zusammenfassung (Markdown, Deutsch):''"

definition noTranscriptionMsg :: jsstring where
  "noTranscriptionMsg =
     str ''<p><em>Keine Transkription zum '' @ [220] @ str ''berarbeiten verf'' @ [252] @
     str ''gbar.</em></p>''"

definition emptyPolishMsg :: jsstring where
  "emptyPolishMsg =
     str ''<p><em>'' @ [220] @
     str ''berarbeitung lieferte leeres Ergebnis. Roh-Transkript ist verf'' @ [252] @
     str ''gbar.</em></p>''"

definition polishErrorHead :: jsstring where
  "polishErrorHead =
     str ''<p><em>Fehler w'' @ [228] @ str ''hrend der '' @ [220] @ str ''berarbeitung: ''"

definition polishErrorTail :: jsstring where
  "polishErrorTail =
     str ''</em></p>''"

definition integrationFailedMarker :: jsstring where
  "integrationFailedMarker =
     [10, 10] @ str ''---'' @ [10, 10] @
     str ''**Neuer Gedanke (Integration fehlgeschlagen):**'' @ [10]"

definition summaryErrorHead :: jsstring where
  "summaryErrorHead =
     [10, 10] @ str ''---'' @ [10, 10] @ str ''**Neuer Gedanke (Fehler w'' @ [228] @
     str ''hrend der Aktualisierung der Zusammenfassung: ''"

definition summaryErrorTail :: jsstring where
  "summaryErrorTail =
     str ''):**'' @ [10]"

definition polishPrompt :: "jsstring \<Rightarrow> jsstring" where
  "polishPrompt raw = polishInstruction @ raw"

definition summaryPrompt :: "jsstring \<Rightarrow> jsstring \<Rightarrow> jsstring" where
  "summaryPrompt existing newlyPolishedThoughtMarkdown =
     summaryPromptHead @ (if existing \<noteq> [] then existing else noPriorSummary) @
     summaryPromptMid @ newlyPolishedThoughtMarkdown @ summaryPromptTail"

section \<open>Persistent history\<close>

definition getHistory :: "app \<Rightarrow> Note list" where
  "getHistory s =
     (case voiceNotesHistory s of Absent \<Rightarrow> [] | Corrupt \<Rightarrow> [] | Json history \<Rightarrow> history)"

text \<open>\<^verbatim>\<open>Array.prototype.findIndex\<close>: the first index that satisfies, \<open>None\<close> for \<open>-1\<close>.\<close>

fun findIndex :: "('a \<Rightarrow> bool) \<Rightarrow> 'a list \<Rightarrow> nat option" where
  "findIndex P [] = None"
| "findIndex P (x # xs) =
     (if P x then Some 0 else (case findIndex P xs of None \<Rightarrow> None | Some i \<Rightarrow> Some (Suc i)))"

text \<open>
  \<open>saveNoteToHistory\<close> stamps the summary and the token count on the object it is given
  (the result's first component: the callers pass the current note itself) and stores the
  history, with the note replaced where its id stands or put in front, cut to 50 entries.
\<close>

definition saveNoteToHistory :: "Note \<Rightarrow> app \<Rightarrow> Note \<times> app" where
  "saveNoteToHistory note s =
     (let history = getHistory s;
          note' = note\<lparr>summary := currentSummary s, totalTokens := currentSessionTokens s\<rparr>;
          history' =
            (case findIndex (\<lambda>h. note_id h = note_id note') history of
               Some existingIndex \<Rightarrow> history[existingIndex := note']
             | None \<Rightarrow> note' # history);
          limitedHistory = take 50 history'
      in (note', s\<lparr>voiceNotesHistory := Json limitedHistory\<rparr>))"

definition updateNoteTitle :: "jsstring \<Rightarrow> jsstring \<Rightarrow> app \<Rightarrow> app" where
  "updateNoteTitle noteId newTitle s =
     (let history = getHistory s
      in case findIndex (\<lambda>h. note_id h = noteId) history of
           Some noteIndex \<Rightarrow>
             s\<lparr>voiceNotesHistory :=
                 Json (history[noteIndex := (history ! noteIndex)\<lparr>title := newTitle\<rparr>])\<rparr>
         | None \<Rightarrow> s)"

section \<open>Token ledger\<close>

text \<open>
  \<^verbatim>\<open>Math.ceil(words / 0.75)\<close>. The exact quotient is \<open>4 * words / 3\<close>: an integer,
  which the double holds exactly, or a third away from the nearest integers, while the
  double nearest to it is less than a third away for any number of words below \<open>2^51\<close>
  (no text is that long). So the ceiling of the double is the ceiling of the exact
  quotient, which is taken here over the rationals.
\<close>

definition estimateTokens :: "jsstring \<Rightarrow> nat" where
  "estimateTokens text =
     (let words = length (split_ws [] text) in nat \<lceil>(of_nat words :: rat) / 0.75\<rceil>)"

definition addTokenUsage :: "nat \<Rightarrow> nat \<Rightarrow> app \<Rightarrow> app" where
  "addTokenUsage inputTokens outputTokens s =
     (let totalUsed = inputTokens + outputTokens;
          s1 = s\<lparr>currentSessionTokens := currentSessionTokens s + totalUsed\<rparr>
      in s1\<lparr>currentNote :=
              map_option (\<lambda>n. n\<lparr>totalTokens := currentSessionTokens s1\<rparr>) (currentNote s1)\<rparr>)"

section \<open>Enrichment pipeline\<close>

text \<open>
  A run of the pipeline is modelled without interruption, each stage from its call of the
  service to its end: a handler that the program runs while a call is awaited is an
  operation of its own, before or after the run.
\<close>

text \<open>One call of the service: the answer to the call with this number, logged.\<close>

definition call :: "services \<Rightarrow> part list \<Rightarrow> app \<Rightarrow> response \<times> app" where
  "call env contents s =
     (let response = generateContent env (length (calls s)) contents
      in (response, s\<lparr>calls := calls s @ [(contents, response)]\<rparr>))"

definition updateSummary :: "services \<Rightarrow> jsstring \<Rightarrow> app \<Rightarrow> app" where
  "updateSummary env newlyPolishedThoughtMarkdown s =
     (let prompt = summaryPrompt (currentSummary s) newlyPolishedThoughtMarkdown;
          contents = [TextPart prompt]
      in case call env contents s of
           (Throws message, s1) \<Rightarrow>
             s1\<lparr>currentSummary :=
                  currentSummary s1 @ summaryErrorHead @ message @ summaryErrorTail @
                  newlyPolishedThoughtMarkdown\<rparr>
         | (Text updatedSummaryText, s1) \<Rightarrow>
             (let inputTokens = estimateTokens prompt;
                  outputTokens = estimateTokens updatedSummaryText;
                  s2 = addTokenUsage inputTokens outputTokens s1
              in if updatedSummaryText \<noteq> [] then s2\<lparr>currentSummary := updatedSummaryText\<rparr>
                 else s2\<lparr>currentSummary :=
                          currentSummary s2 @ integrationFailedMarker @
                          newlyPolishedThoughtMarkdown\<rparr>))"

text \<open>
  The guarded pair of assignments \<^verbatim>\<open>if (this.currentNote) { ... }\<close> that every branch
  of \<open>getPolishedNote\<close> ends with.
\<close>

definition setPolished :: "jsstring \<Rightarrow> jsstring \<Rightarrow> app \<Rightarrow> app" where
  "setPolished markdown html s =
     s\<lparr>currentNote :=
         map_option (\<lambda>n. n\<lparr>polishedNoteMarkdown := markdown, polishedNoteHtml := html\<rparr>)
           (currentNote s)\<rparr>"

definition getPolishedNote :: "services \<Rightarrow> jsstring \<Rightarrow> app \<Rightarrow> app" where
  "getPolishedNote env raw s =
     (if raw = [] \<or> trim raw = [] then setPolished [] noTranscriptionMsg s
      else
        (let prompt = polishPrompt raw;
             contents = [TextPart prompt]
         in case call env contents s of
              (Throws message, s1) \<Rightarrow>
                setPolished [] (polishErrorHead @ message @ polishErrorTail) s1
            | (Text polishedMarkdown, s1) \<Rightarrow>
                (let inputTokens = estimateTokens prompt;
                     outputTokens = estimateTokens polishedMarkdown;
                     s2 = addTokenUsage inputTokens outputTokens s1
                 in if polishedMarkdown \<noteq> [] then
                      (let htmlContent = marked_parse env polishedMarkdown;
                           s3 = setPolished polishedMarkdown htmlContent s2
                       in updateSummary env polishedMarkdown s3)
                    else setPolished [] emptyPolishMsg s2)))"

definition getTranscription :: "services \<Rightarrow> jsstring \<Rightarrow> jsstring \<Rightarrow> app \<Rightarrow> app" where
  "getTranscription env base64Audio mimeType s =
     (let contents = [TextPart transcribeInstruction, InlineData mimeType base64Audio]
      in case call env contents s of
           (Throws message, s1) \<Rightarrow> s1
         | (Text transcriptionText, s1) \<Rightarrow>
             (let inputTokens = estimateTokens transcribeInstruction;
                  outputTokens = estimateTokens transcriptionText;
                  s2 = addTokenUsage inputTokens outputTokens s1
              in if transcriptionText \<noteq> [] then
                   getPolishedNote env transcriptionText
                     (s2\<lparr>currentNote :=
                           map_option (\<lambda>n. n\<lparr>rawTranscription := transcriptionText\<rparr>)
                             (currentNote s2)\<rparr>)
                 else s2))"

section \<open>Note session\<close>

text \<open>
  \<open>nowId\<close> and \<open>nowTimestamp\<close> are the two readings of \<^verbatim>\<open>Date.now()\<close>. A note
  is dirty when its transcription or its markdown is a non-empty string.
\<close>

definition dirty :: "Note \<Rightarrow> bool" where
  "dirty n = (rawTranscription n \<noteq> [] \<or> polishedNoteMarkdown n \<noteq> [])"

definition createNewNote :: "nat \<Rightarrow> nat \<Rightarrow> app \<Rightarrow> app" where
  "createNewNote nowId nowTimestamp s =
     (let s1 =
            (case currentNote s of
               Some n \<Rightarrow>
                 if dirty n then
                   (case saveNoteToHistory n s of (n', s') \<Rightarrow> s'\<lparr>currentNote := Some n'\<rparr>)
                 else s
             | None \<Rightarrow> s)
      in s1\<lparr>currentNote :=
              Some \<lparr>note_id = str ''note_'' @ decimal nowId, title = [],
                    rawTranscription = [], polishedNoteMarkdown = [], polishedNoteHtml = [],
                    summary = [], timestamp = nowTimestamp, totalTokens = 0\<rparr>,
            currentSummary := [],
            currentSessionTokens := 0,
            isRecording := False\<rparr>)"

text \<open>
  \<open>editorText\<close> is the text of the editor's title element when the note is loaded.
  The note that becomes current is the entry read before the outgoing note was saved.
\<close>

definition loadNoteFromHistory :: "jsstring \<Rightarrow> jsstring \<Rightarrow> app \<Rightarrow> app" where
  "loadNoteFromHistory noteId editorText s =
     (let history = getHistory s
      in case find (\<lambda>h. note_id h = noteId) history of
           None \<Rightarrow> s
         | Some note \<Rightarrow>
             (let s1 =
                    (case currentNote s of
                       Some cur \<Rightarrow>
                         if dirty cur then
                           (let currentEditorTitle = trim editorText;
                                retitle = (currentEditorTitle \<noteq> [] \<and> currentEditorTitle \<noteq> title cur);
                                cur1 = (if retitle then cur\<lparr>title := currentEditorTitle\<rparr> else cur);
                                sa = (if retitle then updateNoteTitle (note_id cur1) currentEditorTitle s
                                      else s)
                            in case saveNoteToHistory cur1 sa of
                                 (cur2, sb) \<Rightarrow> sb\<lparr>currentNote := Some cur2\<rparr>)
                         else s
                     | None \<Rightarrow> s)
              in s1\<lparr>currentNote := Some note,
                    currentSummary := summary note,
                    currentSessionTokens := totalTokens note\<rparr>))"

text \<open>\<open>confirmDelete\<close> is the answer to the confirmation dialog.\<close>

definition deleteNote :: "jsstring \<Rightarrow> bool \<Rightarrow> nat \<Rightarrow> nat \<Rightarrow> app \<Rightarrow> app" where
  "deleteNote noteId confirmDelete nowId nowTimestamp s =
     (if \<not> confirmDelete then s
      else
        (let history = getHistory s
         in case findIndex (\<lambda>h. note_id h = noteId) history of
              None \<Rightarrow> s
            | Some noteIndex \<Rightarrow>
                (let history' = take noteIndex history @ drop (Suc noteIndex) history;
                     s1 = s\<lparr>voiceNotesHistory := Json history'\<rparr>
                 in case currentNote s1 of
                      Some n \<Rightarrow>
                        if note_id n = noteId then createNewNote nowId nowTimestamp s1 else s1
                    | None \<Rightarrow> s1)))"

section \<open>Notions used to state the properties\<close>

text \<open>
  A session: any sequence of the operations above. \<open>perform\<close> runs one of them.
\<close>

datatype operation =
    CreateNewNote nat nat
  | LoadNoteFromHistory jsstring jsstring
  | DeleteNote jsstring bool nat nat
  | UpdateNoteTitle jsstring jsstring
  | SaveCurrentNote
  | AddTokenUsage nat nat
  | GetTranscription jsstring jsstring
  | GetPolishedNote jsstring
  | UpdateSummary jsstring

fun perform :: "services \<Rightarrow> operation \<Rightarrow> app \<Rightarrow> app" where
  "perform env (CreateNewNote nowId nowTimestamp) s = createNewNote nowId nowTimestamp s"
| "perform env (LoadNoteFromHistory noteId editorText) s = loadNoteFromHistory noteId editorText s"
| "perform env (DeleteNote noteId confirmDelete nowId nowTimestamp) s =
     deleteNote noteId confirmDelete nowId nowTimestamp s"
| "perform env (UpdateNoteTitle noteId newTitle) s = updateNoteTitle noteId newTitle s"
| "perform env SaveCurrentNote s =
     (case currentNote s of
        None \<Rightarrow> s
      | Some n \<Rightarrow> (case saveNoteToHistory n s of (n', s') \<Rightarrow> s'\<lparr>currentNote := Some n'\<rparr>))"
| "perform env (AddTokenUsage inputTokens outputTokens) s = addTokenUsage inputTokens outputTokens s"
| "perform env (GetTranscription base64Audio mimeType) s = getTranscription env base64Audio mimeType s"
| "perform env (GetPolishedNote raw) s = getPolishedNote env raw s"
| "perform env (UpdateSummary markdown) s = updateSummary env markdown s"

definition session :: "services \<Rightarrow> operation list \<Rightarrow> app \<Rightarrow> app" where
  "session env ops s = fold (perform env) ops s"

text \<open>The notes of a state: the current one and the stored ones.\<close>

definition all_notes :: "app \<Rightarrow> Note list" where
  "all_notes s = (case currentNote s of None \<Rightarrow> [] | Some n \<Rightarrow> [n]) @ getHistory s"

text \<open>The two polished fields are both empty or both non-empty.\<close>

definition both_or_neither :: "Note \<Rightarrow> bool" where
  "both_or_neither n = ((polishedNoteMarkdown n = []) = (polishedNoteHtml n = []))"

text \<open>A non-empty markdown comes with its rendering.\<close>

definition rendered :: "services \<Rightarrow> Note \<Rightarrow> bool" where
  "rendered env n =
     (polishedNoteMarkdown n \<noteq> [] \<longrightarrow>
      polishedNoteHtml n = marked_parse env (polishedNoteMarkdown n))"

definition notes_rendered :: "services \<Rightarrow> app \<Rightarrow> bool" where
  "notes_rendered env s = list_all (rendered env) (all_notes s)"

text \<open>
  The estimate in the claim's words. The words of a text are the pieces between its
  maximal runs of white space, one more than there are runs: a run at either end leaves
  an empty word there, and the empty text has one (empty) word. \<open>ws_runs\<close> counts the
  runs, \<open>inRun\<close> telling whether the character before was white space. The estimate of a
  text is \<open>\<lceil>words / 0.75\<rceil>\<close>.
\<close>

fun ws_runs :: "bool \<Rightarrow> jsstring \<Rightarrow> nat" where
  "ws_runs inRun [] = 0"
| "ws_runs inRun (c # cs) =
     (if is_space c then (if inRun then 0 else 1) + ws_runs True cs else ws_runs False cs)"

definition wordCount :: "jsstring \<Rightarrow> nat" where
  "wordCount t = Suc (ws_runs False t)"

definition ceilTokens :: "jsstring \<Rightarrow> nat" where
  "ceilTokens t = nat \<lceil>(of_nat (wordCount t) :: rat) / 0.75\<rceil>"




text \<open>A note as \<open>saveNoteToHistory\<close> stores it.\<close>

definition stamped :: "app \<Rightarrow> Note \<Rightarrow> Note" where
  "stamped s n = n\<lparr>summary := currentSummary s, totalTokens := currentSessionTokens s\<rparr>"

definition saveAll :: "Note list \<Rightarrow> app \<Rightarrow> app" where
  "saveAll ns s = fold (\<lambda>n s'. snd (saveNoteToHistory n s')) ns s"

text \<open>States and inputs of the examples.\<close>

definition emptyNote :: "jsstring \<Rightarrow> nat \<Rightarrow> Note" where
  "emptyNote i t =
     \<lparr>note_id = i, title = [], rawTranscription = [], polishedNoteMarkdown = [],
      polishedNoteHtml = [], summary = [], timestamp = t, totalTokens = 0\<rparr>"

definition freshApp :: app where
  "freshApp =
     \<lparr>currentNote = None, currentSummary = [], currentSessionTokens = 0, isRecording = False,
      voiceNotesHistory = Absent, calls = []\<rparr>"

definition startedApp :: app where
  "startedApp = createNewNote 1000 1000 freshApp"

definition fullHistoryApp :: app where
  "fullHistoryApp = freshApp\<lparr>voiceNotesHistory := Json (map (\<lambda>k. emptyNote [k] k) [0..<50])\<rparr>"

text \<open>
  The program started on a stored history of one note, which the user then opens from the
  history list.
\<close>

definition storedNote :: Note where
  "storedNote = (emptyNote (str ''note_1'') 1)\<lparr>rawTranscription := str ''Hallo Welt''\<rparr>"

definition reopenedApp :: app where
  "reopenedApp =
     loadNoteFromHistory (str ''note_1'') []
       (createNewNote 1000 1000 (freshApp\<lparr>voiceNotesHistory := Json [storedNote]\<rparr>))"

text \<open>A service that answers the calls of a session from a list, in order, and throws after.\<close>

definition scripted :: "response list \<Rightarrow> services" where
  "scripted rs =
     \<lparr>generateContent = (\<lambda>k contents. if k < length rs then rs ! k else Throws (str ''offline'')),
      marked_parse = (\<lambda>markdown. str ''<p>'' @ markdown @ str ''</p>'')\<rparr>"

section \<open>Properties of the token estimate\<close>

lemma split_ws_length: "1 \<le> length (split_ws cur t)"
  by (induction cur t rule: split_ws.induct) auto

lemma ceil_words: "nat \<lceil>(of_nat w :: rat) / 0.75\<rceil> = (4 * w + 2) div 3"
proof -
  have "(of_nat w :: rat) / 0.75 = of_int (4 * int w) / of_int 3"
    by simp
  then have "\<lceil>(of_nat w :: rat) / 0.75\<rceil> = - (- (4 * int w) div 3)"
    by (simp only: ceiling_divide_eq_div)
  then show ?thesis
    by linarith
qed

lemma estimateTokens_eq: "estimateTokens text = (4 * length (split_ws [] text) + 2) div 3"
  by (simp only: estimateTokens_def Let_def ceil_words)

lemma estimateTokens_ge: "2 \<le> estimateTokens text"
proof -
  have "1 \<le> length (split_ws [] text)"
    by (rule split_ws_length)
  then show ?thesis
    unfolding estimateTokens_eq by linarith
qed

lemma estimateTokens_empty: "estimateTokens [] = 2"
  by (simp add: estimateTokens_eq)

lemma estimateTokens_Hallo_Welt: "estimateTokens (str ''Hallo Welt'') = 3"
  by (simp add: estimateTokens_eq str_def is_space_def)

lemma estimateTokens_transcribeInstruction: "estimateTokens transcribeInstruction = 12"
  by (simp add: estimateTokens_eq transcribeInstruction_def str_def is_space_def)

lemma addTokenUsage_tokens:
  "currentSessionTokens (addTokenUsage i out s) = currentSessionTokens s + i + out"
  by (simp add: addTokenUsage_def Let_def)

text \<open>The pieces of the split are the words of the claim.\<close>

lemma ws_runs_dropWhile: "ws_runs True cs = ws_runs False (dropWhile is_space cs)"
  by (induction cs) simp_all

lemma split_ws_count: "length (split_ws cur t) = Suc (ws_runs False t)"
  by (induction cur t rule: split_ws.induct) (simp_all add: ws_runs_dropWhile)

lemma estimateTokens_ceil: "estimateTokens t = ceilTokens t"
  by (simp only: estimateTokens_def ceilTokens_def wordCount_def Let_def split_ws_count)

lemma ceilTokens_eq: "ceilTokens t = (4 * wordCount t + 2) div 3"
  by (simp only: ceilTokens_def ceil_words)

text \<open>Counting the runs of a given text, character by character.\<close>

lemma ws_runs_visible:
  "32 < c \<Longrightarrow> c < 5760 \<Longrightarrow> c \<noteq> 160 \<Longrightarrow> ws_runs b (c # cs) = ws_runs False cs"
  by (simp add: is_space_def)

lemma ws_runs_blank:
  "ws_runs False (10 # cs) = Suc (ws_runs True cs)"
  "ws_runs False (32 # cs) = Suc (ws_runs True cs)"
  "ws_runs True (10 # cs) = ws_runs True cs"
  "ws_runs True (32 # cs) = ws_runs True cs"
  by (simp_all add: is_space_def)

lemmas count_words =
  ceilTokens_eq wordCount_def str_def ws_runs_visible ws_runs_blank ws_runs.simps(1)

lemma ceilTokens_empty: "ceilTokens [] = 2"
  by (simp add: count_words)

lemma ceilTokens_transcribeInstruction: "ceilTokens transcribeInstruction = 12"
  by (simp add: transcribeInstruction_def count_words del: ws_runs.simps(2))



lemma ceilTokens_polishPrompt_Hallo_Welt: "ceilTokens (polishPrompt (str ''Hallo Welt'')) = 171"
  by (simp add: polishPrompt_def polishInstruction_def count_words del: ws_runs.simps(2))

lemma ceilTokens_summaryPrompt_Titel: "ceilTokens (summaryPrompt [] (str ''# Titel'')) = 236"
  by (simp add: summaryPrompt_def summaryPromptHead_def noPriorSummary_def summaryPromptMid_def
      summaryPromptTail_def count_words del: ws_runs.simps(2))

section \<open>Properties of the token ledger\<close>















lemma startedApp_eq:
  "startedApp =
     \<lparr>currentNote = Some (emptyNote (str ''note_1000'') 1000), currentSummary = [],
      currentSessionTokens = 0, isRecording = False, voiceNotesHistory = Absent, calls = []\<rparr>"
  by (simp add: startedApp_def freshApp_def createNewNote_def emptyNote_def decimal.simps str_def)

lemma trim_Hallo_Welt: "trim (str ''Hallo Welt'') = str ''Hallo Welt''"
  by (simp add: trim_def str_def is_space_def)


lemma counter_updateSummary:
  "currentSessionTokens (updateSummary env md s) =
     (case generateContent env (length (calls s))
             [TextPart (summaryPrompt (currentSummary s) md)] of
        Text t \<Rightarrow>
          currentSessionTokens s + estimateTokens (summaryPrompt (currentSummary s) md) +
          estimateTokens t
      | Throws e \<Rightarrow> currentSessionTokens s)"
  by (simp add: updateSummary_def call_def Let_def addTokenUsage_def split: response.splits)

lemma counter_updateSummary_mono:
  "currentSessionTokens s \<le> currentSessionTokens (updateSummary env md s)"
  by (simp add: counter_updateSummary split: response.splits)

lemma counter_getPolishedNote_text:
  assumes "trim raw \<noteq> []"
    and "generateContent env (length (calls s)) [TextPart (polishPrompt raw)] = Text t"
  shows "currentSessionTokens s + estimateTokens (polishPrompt raw) + estimateTokens t \<le>
         currentSessionTokens (getPolishedNote env raw s)"
proof -
  have raw: "raw \<noteq> []"
    using assms(1) by (auto simp: trim_def)
  show ?thesis
  proof (cases "t = []")
    case True
    then show ?thesis
      using raw assms
      by (simp add: getPolishedNote_def call_def Let_def addTokenUsage_def setPolished_def)
  next
    case False
    let ?s3 = "setPolished t (marked_parse env t)
        (addTokenUsage (estimateTokens (polishPrompt raw)) (estimateTokens t)
           (s\<lparr>calls := calls s @ [([TextPart (polishPrompt raw)], Text t)]\<rparr>))"
    have "getPolishedNote env raw s = updateSummary env t ?s3"
      using raw assms False by (simp add: getPolishedNote_def call_def Let_def)
    moreover have "currentSessionTokens ?s3 =
        currentSessionTokens s + estimateTokens (polishPrompt raw) + estimateTokens t"
      by (simp add: setPolished_def addTokenUsage_def Let_def)
    ultimately show ?thesis
      using counter_updateSummary_mono [of ?s3 env t] by simp
  qed
qed

lemma counter_getPolishedNote_mono:
  "currentSessionTokens s \<le> currentSessionTokens (getPolishedNote env raw s)"
proof (cases "raw = [] \<or> trim raw = []")
  case True
  then show ?thesis
    by (simp add: getPolishedNote_def setPolished_def)
next
  case False
  show ?thesis
  proof (cases "generateContent env (length (calls s)) [TextPart (polishPrompt raw)]")
    case (Text t)
    with False counter_getPolishedNote_text [of raw env s t] show ?thesis
      by simp
  next
    case (Throws e)
    with False show ?thesis
      by (simp add: getPolishedNote_def call_def Let_def setPolished_def)
  qed
qed

lemma counter_getTranscription_text:
  assumes "generateContent env (length (calls s))
             [TextPart transcribeInstruction, InlineData mimeType base64Audio] = Text t"
  shows "currentSessionTokens s + estimateTokens transcribeInstruction + estimateTokens t \<le>
         currentSessionTokens (getTranscription env base64Audio mimeType s)"
proof (cases "t = []")
  case True
  then show ?thesis
    using assms by (simp add: getTranscription_def call_def Let_def addTokenUsage_def)
next
  case False
  let ?s2 = "addTokenUsage (estimateTokens transcribeInstruction) (estimateTokens t)
      (s\<lparr>calls := calls s @
         [([TextPart transcribeInstruction, InlineData mimeType base64Audio], Text t)]\<rparr>)"
  let ?s3 = "?s2\<lparr>currentNote :=
      map_option (\<lambda>n. n\<lparr>rawTranscription := t\<rparr>) (currentNote ?s2)\<rparr>"
  have "getTranscription env base64Audio mimeType s = getPolishedNote env t ?s3"
    using assms False by (simp add: getTranscription_def call_def Let_def)
  moreover have "currentSessionTokens ?s3 =
      currentSessionTokens s + estimateTokens transcribeInstruction + estimateTokens t"
    by (simp add: addTokenUsage_def Let_def)
  ultimately show ?thesis
    using counter_getPolishedNote_mono [of ?s3 env t] by simp
qed

text \<open>
  C10. \<open>estimateTokens\<close> returns at least 2 for every text, and exactly 2 for the empty
  text (one empty word, \<open>\<lceil>1 / 0.75\<rceil> = 2\<close>). So booking a call strictly increases the
  session's token counter, and so does every stage whose service call returns a text, be
  it the empty text: the transcribe stage, the polish stage (reached with a transcription
  that is not blank) and the summarize stage each leave the counter at least 4 higher.
\<close>

theorem estimateTokens_at_least_two:
  "2 \<le> estimateTokens text \<and> estimateTokens [] = 2 \<and>
   currentSessionTokens s <
     currentSessionTokens (addTokenUsage (estimateTokens request) (estimateTokens answer) s) \<and>
   (generateContent env (length (calls s))
      [TextPart transcribeInstruction, InlineData mimeType base64Audio] = Text t \<longrightarrow>
    currentSessionTokens s + 4 \<le>
      currentSessionTokens (getTranscription env base64Audio mimeType s)) \<and>
   (trim raw \<noteq> [] \<and>
    generateContent env (length (calls s)) [TextPart (polishPrompt raw)] = Text t \<longrightarrow>
    currentSessionTokens s + 4 \<le> currentSessionTokens (getPolishedNote env raw s)) \<and>
   (generateContent env (length (calls s))
      [TextPart (summaryPrompt (currentSummary s) markdown)] = Text t \<longrightarrow>
    currentSessionTokens s + 4 \<le> currentSessionTokens (updateSummary env markdown s))"
proof (intro conjI impI)
  show "2 \<le> estimateTokens text"
    by (rule estimateTokens_ge)
  show "estimateTokens [] = 2"
    by (rule estimateTokens_empty)
  show "currentSessionTokens s <
     currentSessionTokens (addTokenUsage (estimateTokens request) (estimateTokens answer) s)"
    using estimateTokens_ge [of request] estimateTokens_ge [of answer]
    by (simp add: addTokenUsage_tokens)
next
  assume "generateContent env (length (calls s))
      [TextPart transcribeInstruction, InlineData mimeType base64Audio] = Text t"
  then have "currentSessionTokens s + estimateTokens transcribeInstruction + estimateTokens t \<le>
      currentSessionTokens (getTranscription env base64Audio mimeType s)"
    by (rule counter_getTranscription_text)
  then show "currentSessionTokens s + 4 \<le>
      currentSessionTokens (getTranscription env base64Audio mimeType s)"
    using estimateTokens_ge [of transcribeInstruction] estimateTokens_ge [of t] by linarith
next
  assume "trim raw \<noteq> [] \<and>
    generateContent env (length (calls s)) [TextPart (polishPrompt raw)] = Text t"
  then have "currentSessionTokens s + estimateTokens (polishPrompt raw) + estimateTokens t \<le>
      currentSessionTokens (getPolishedNote env raw s)"
    by (intro counter_getPolishedNote_text) simp_all
  then show "currentSessionTokens s + 4 \<le> currentSessionTokens (getPolishedNote env raw s)"
    using estimateTokens_ge [of "polishPrompt raw"] estimateTokens_ge [of t] by linarith
next
  assume "generateContent env (length (calls s))
      [TextPart (summaryPrompt (currentSummary s) markdown)] = Text t"
  then have "currentSessionTokens (updateSummary env markdown s) =
      currentSessionTokens s + estimateTokens (summaryPrompt (currentSummary s) markdown) +
      estimateTokens t"
    by (simp add: counter_updateSummary)
  then show "currentSessionTokens s + 4 \<le> currentSessionTokens (updateSummary env markdown s)"
    using estimateTokens_ge [of "summaryPrompt (currentSummary s) markdown"]
      estimateTokens_ge [of t] by linarith
qed

theorem estimateTokens_at_least_two_witness:
  "generateContent (scripted [Text []]) (length (calls startedApp))
     [TextPart transcribeInstruction, InlineData (str ''audio/webm'') (str ''QUJD'')] = Text [] \<and>
   trim (str ''Hallo Welt'') \<noteq> [] \<and>
   generateContent (scripted [Text []]) (length (calls startedApp))
     [TextPart (polishPrompt (str ''Hallo Welt''))] = Text [] \<and>
   generateContent (scripted [Text []]) (length (calls startedApp))
     [TextPart (summaryPrompt (currentSummary startedApp) (str ''# Titel''))] = Text [] \<and>
   currentSessionTokens startedApp = 0 \<and>
   currentSessionTokens startedApp + 4 \<le>
     currentSessionTokens
       (getTranscription (scripted [Text []]) (str ''QUJD'') (str ''audio/webm'') startedApp) \<and>
   currentSessionTokens
     (getTranscription (scripted [Text []]) (str ''QUJD'') (str ''audio/webm'') startedApp) = 14 \<and>
   currentSessionTokens startedApp + 4 \<le>
     currentSessionTokens (getPolishedNote (scripted [Text []]) (str ''Hallo Welt'') startedApp) \<and>
   currentSessionTokens (getPolishedNote (scripted [Text []]) (str ''Hallo Welt'') startedApp) =
     173 \<and>
   currentSessionTokens startedApp + 4 \<le>
     currentSessionTokens (updateSummary (scripted [Text []]) (str ''# Titel'') startedApp) \<and>
   currentSessionTokens (updateSummary (scripted [Text []]) (str ''# Titel'') startedApp) = 238"
proof -
  let ?env = "scripted [Text []]"
  have k: "length (calls startedApp) = 0" and c0: "currentSessionTokens startedApp = 0"
    and cs: "currentSummary startedApp = []"
    by (simp_all add: startedApp_eq)
  have g1: "generateContent ?env (length (calls startedApp))
      [TextPart transcribeInstruction, InlineData (str ''audio/webm'') (str ''QUJD'')] = Text []"
    and g2: "generateContent ?env (length (calls startedApp))
      [TextPart (polishPrompt (str ''Hallo Welt''))] = Text []"
    and g3: "generateContent ?env (length (calls startedApp))
      [TextPart (summaryPrompt (currentSummary startedApp) (str ''# Titel''))] = Text []"
    by (simp_all add: scripted_def k)
  have t1: "trim (str ''Hallo Welt'') \<noteq> []"
    by (simp add: trim_Hallo_Welt) (simp add: str_def)
  have raw: "str ''Hallo Welt'' \<noteq> []"
    by (simp add: str_def)
  note inst = estimateTokens_at_least_two [of "[]" startedApp "[]" "[]" ?env
      "str ''audio/webm''" "str ''QUJD''" "[]" "str ''Hallo Welt''" "str ''# Titel''"]
  from inst g1 have a: "currentSessionTokens startedApp + 4 \<le>
      currentSessionTokens (getTranscription ?env (str ''QUJD'') (str ''audio/webm'') startedApp)"
    by blast
  from inst t1 g2 have b: "currentSessionTokens startedApp + 4 \<le>
      currentSessionTokens (getPolishedNote ?env (str ''Hallo Welt'') startedApp)"
    by blast
  from inst g3 have c: "currentSessionTokens startedApp + 4 \<le>
      currentSessionTokens (updateSummary ?env (str ''# Titel'') startedApp)"
    by blast
  have a': "currentSessionTokens
      (getTranscription ?env (str ''QUJD'') (str ''audio/webm'') startedApp) = 14"
    using g1
    by (simp add: getTranscription_def call_def Let_def addTokenUsage_def c0
        estimateTokens_ceil ceilTokens_transcribeInstruction ceilTokens_empty)
  have b': "currentSessionTokens (getPolishedNote ?env (str ''Hallo Welt'') startedApp) = 173"
    using g2 t1 raw
    by (simp add: getPolishedNote_def call_def Let_def addTokenUsage_def setPolished_def c0
        estimateTokens_ceil ceilTokens_polishPrompt_Hallo_Welt ceilTokens_empty)
  have c': "currentSessionTokens (updateSummary ?env (str ''# Titel'') startedApp) = 238"
    using g3
    by (simp add: counter_updateSummary c0 cs estimateTokens_ceil ceilTokens_summaryPrompt_Titel
        ceilTokens_empty)
  from g1 t1 g2 g3 c0 a a' b b' c c' show ?thesis
    by (intro conjI)
qed

section \<open>Properties of the pipeline stages\<close>

lemma emptyPolishMsg_nonempty: "emptyPolishMsg \<noteq> []"
  by (simp add: emptyPolishMsg_def str_def)

lemma polishErrorHead_nonempty: "polishErrorHead \<noteq> []"
  by (simp add: polishErrorHead_def str_def)

text \<open>
  C6. When the transcribe call returns the empty text, the pipeline stops there: the call
  log gains the transcribe call and nothing else (neither the polish nor the summarize
  stage is invoked), and the current note's \<open>rawTranscription\<close>,
  \<open>polishedNoteMarkdown\<close> and \<open>polishedNoteHtml\<close> as well as the running summary are
  what they were (so an empty transcription and an empty markdown stay empty).
\<close>

theorem empty_transcription_short_circuits:
  assumes "generateContent env (length (calls s))
             [TextPart transcribeInstruction, InlineData mimeType base64Audio] = Text []"
  shows "calls (getTranscription env base64Audio mimeType s) =
           calls s @ [([TextPart transcribeInstruction, InlineData mimeType base64Audio], Text [])] \<and>
         map_option rawTranscription (currentNote (getTranscription env base64Audio mimeType s)) =
           map_option rawTranscription (currentNote s) \<and>
         map_option polishedNoteMarkdown (currentNote (getTranscription env base64Audio mimeType s)) =
           map_option polishedNoteMarkdown (currentNote s) \<and>
         map_option polishedNoteHtml (currentNote (getTranscription env base64Audio mimeType s)) =
           map_option polishedNoteHtml (currentNote s) \<and>
         currentSummary (getTranscription env base64Audio mimeType s) = currentSummary s"
  using assms
  by (simp add: getTranscription_def call_def Let_def addTokenUsage_def option.map_comp comp_def)

theorem empty_transcription_short_circuits_witness:
  "generateContent (scripted [Text []]) (length (calls startedApp))
     [TextPart transcribeInstruction, InlineData (str ''audio/webm'') (str ''QUJD'')] = Text [] \<and>
   calls (getTranscription (scripted [Text []]) (str ''QUJD'') (str ''audio/webm'') startedApp) =
     [([TextPart transcribeInstruction, InlineData (str ''audio/webm'') (str ''QUJD'')], Text [])] \<and>
   map_option rawTranscription
     (currentNote (getTranscription (scripted [Text []]) (str ''QUJD'') (str ''audio/webm'') startedApp)) =
     Some [] \<and>
   map_option polishedNoteMarkdown
     (currentNote (getTranscription (scripted [Text []]) (str ''QUJD'') (str ''audio/webm'') startedApp)) =
     Some []"
proof -
  have h: "generateContent (scripted [Text []]) (length (calls startedApp))
     [TextPart transcribeInstruction, InlineData (str ''audio/webm'') (str ''QUJD'')] = Text []"
    by (simp add: scripted_def startedApp_eq)
  from empty_transcription_short_circuits [OF h] h show ?thesis
    by (simp add: startedApp_eq emptyNote_def)
qed

lemma updateSummary_empty_answer:
  assumes "generateContent env (length (calls s)) [TextPart (summaryPrompt (currentSummary s) B)] = Text []"
  shows "currentSummary (updateSummary env B s) = currentSummary s @ integrationFailedMarker @ B"
  using assms by (simp add: updateSummary_def call_def Let_def addTokenUsage_def)

lemma updateSummary_thrown:
  assumes "generateContent env (length (calls s)) [TextPart (summaryPrompt (currentSummary s) B)] =
           Throws message"
  shows "currentSummary (updateSummary env B s) =
           currentSummary s @ (summaryErrorHead @ message @ summaryErrorTail) @ B"
  using assms by (simp add: updateSummary_def call_def Let_def)

lemma integrationFailedMarker_nonempty: "integrationFailedMarker \<noteq> []"
  by (simp add: integrationFailedMarker_def)

lemma summaryErrorHead_nonempty: "summaryErrorHead \<noteq> []"
  by (simp add: summaryErrorHead_def)

lemma appended_verbatim:
  assumes "marker \<noteq> []"
  shows "sublist A (A @ marker @ B) \<and> sublist B (A @ marker @ B) \<and>
         prefix A (A @ marker @ B) \<and> suffix B (A @ marker @ B) \<and>
         length A + length B < length (A @ marker @ B)"
proof -
  have "A @ marker @ B = [] @ A @ (marker @ B)"
    by simp
  then have "sublist A (A @ marker @ B)"
    unfolding sublist_def by blast
  moreover have "A @ marker @ B = (A @ marker) @ B @ []"
    by simp
  then have "sublist B (A @ marker @ B)"
    unfolding sublist_def by blast
  moreover have "prefix A (A @ marker @ B)"
    by simp
  moreover have "suffix B (A @ marker @ B)"
    by (simp add: suffix_def)
  moreover have "length A + length B < length (A @ marker @ B)"
    using assms by (cases marker) simp_all
  ultimately show ?thesis
    by simp
qed

text \<open>
  C7. When the summarize call returns the empty text or throws, the new summary is the
  existing summary \<open>A\<close>, then a non-empty marker, then the new markdown \<open>B\<close>: both
  \<open>A\<close> and \<open>B\<close> are contiguous parts of it, \<open>A\<close> at its start and \<open>B\<close> at its end.
\<close>

theorem summarize_failure_keeps_content:
  assumes "generateContent env (length (calls s)) [TextPart (summaryPrompt (currentSummary s) B)] = Text [] \<or>
           (\<exists>message. generateContent env (length (calls s))
              [TextPart (summaryPrompt (currentSummary s) B)] = Throws message)"
    and "currentSummary s = A"
  shows "sublist A (currentSummary (updateSummary env B s)) \<and>
         sublist B (currentSummary (updateSummary env B s)) \<and>
         prefix A (currentSummary (updateSummary env B s)) \<and>
         suffix B (currentSummary (updateSummary env B s)) \<and>
         length A + length B < length (currentSummary (updateSummary env B s))"
  using assms(1)
proof (rule disjE)
  assume "generateContent env (length (calls s)) [TextPart (summaryPrompt (currentSummary s) B)] = Text []"
  then have eq: "currentSummary (updateSummary env B s) = A @ integrationFailedMarker @ B"
    unfolding assms(2) [symmetric] by (rule updateSummary_empty_answer)
  show ?thesis
    unfolding eq by (rule appended_verbatim [OF integrationFailedMarker_nonempty])
next
  assume "\<exists>message. generateContent env (length (calls s))
            [TextPart (summaryPrompt (currentSummary s) B)] = Throws message"
  then obtain message where "generateContent env (length (calls s))
            [TextPart (summaryPrompt (currentSummary s) B)] = Throws message" ..
  then have eq: "currentSummary (updateSummary env B s) =
      A @ (summaryErrorHead @ message @ summaryErrorTail) @ B"
    unfolding assms(2) [symmetric] by (rule updateSummary_thrown)
  have ne: "summaryErrorHead @ message @ summaryErrorTail \<noteq> []"
    using summaryErrorHead_nonempty by simp
  show ?thesis
    unfolding eq by (rule appended_verbatim [OF ne])
qed

theorem summarize_failure_keeps_content_witness:
  "generateContent (scripted [Text []]) (length (calls (startedApp\<lparr>currentSummary := str ''A''\<rparr>)))
     [TextPart (summaryPrompt (currentSummary (startedApp\<lparr>currentSummary := str ''A''\<rparr>)) (str ''B''))] =
     Text [] \<and>
   currentSummary (startedApp\<lparr>currentSummary := str ''A''\<rparr>) = str ''A'' \<and>
   sublist (str ''A'')
     (currentSummary (updateSummary (scripted [Text []]) (str ''B'') (startedApp\<lparr>currentSummary := str ''A''\<rparr>))) \<and>
   sublist (str ''B'')
     (currentSummary (updateSummary (scripted [Text []]) (str ''B'') (startedApp\<lparr>currentSummary := str ''A''\<rparr>)))"
proof -
  let ?s = "startedApp\<lparr>currentSummary := str ''A''\<rparr>"
  have h1: "generateContent (scripted [Text []]) (length (calls ?s))
     [TextPart (summaryPrompt (currentSummary ?s) (str ''B''))] = Text []"
    by (simp add: scripted_def startedApp_eq)
  have h2: "currentSummary ?s = str ''A''"
    by simp
  from summarize_failure_keeps_content [OF disjI1 [OF h1] h2] h1 h2 show ?thesis
    by blast
qed

text \<open>
  C3, as the code has it. When the polish call returns the empty text (the transcription
  being non-blank), the current note gets the empty markdown and the non-empty placeholder
  \<open>emptyPolishMsg\<close> as HTML, the call is booked, and the pipeline ends: the log gains the
  polish call only, so the summarize stage is not invoked, and the running summary is
  unchanged.
\<close>

theorem empty_polish_result_stops:
  assumes "trim raw \<noteq> []"
    and "generateContent env (length (calls s)) [TextPart (polishPrompt raw)] = Text []"
  shows "currentNote (getPolishedNote env raw s) =
           map_option (\<lambda>n. n\<lparr>totalTokens := currentSessionTokens s + estimateTokens (polishPrompt raw) + 2,
                                polishedNoteMarkdown := [], polishedNoteHtml := emptyPolishMsg\<rparr>)
             (currentNote s) \<and>
         emptyPolishMsg \<noteq> [] \<and>
         calls (getPolishedNote env raw s) = calls s @ [([TextPart (polishPrompt raw)], Text [])] \<and>
         currentSummary (getPolishedNote env raw s) = currentSummary s"
proof -
  have "raw \<noteq> []"
    using assms(1) by (auto simp: trim_def)
  moreover have "emptyPolishMsg \<noteq> []"
    by (simp add: emptyPolishMsg_def)
  ultimately show ?thesis
    using assms
    by (simp add: getPolishedNote_def call_def Let_def addTokenUsage_def setPolished_def
        estimateTokens_empty option.map_comp comp_def)
qed

theorem empty_polish_result_stops_witness:
  "trim (str ''Hallo Welt'') \<noteq> [] \<and>
   generateContent (scripted [Text []]) (length (calls startedApp))
     [TextPart (polishPrompt (str ''Hallo Welt''))] = Text [] \<and>
   map_option polishedNoteMarkdown
     (currentNote (getPolishedNote (scripted [Text []]) (str ''Hallo Welt'') startedApp)) = Some [] \<and>
   map_option polishedNoteHtml
     (currentNote (getPolishedNote (scripted [Text []]) (str ''Hallo Welt'') startedApp)) =
     Some emptyPolishMsg \<and>
   calls (getPolishedNote (scripted [Text []]) (str ''Hallo Welt'') startedApp) =
     [([TextPart (polishPrompt (str ''Hallo Welt''))], Text [])]"
proof -
  have h1: "trim (str ''Hallo Welt'') \<noteq> []"
    by (simp add: trim_Hallo_Welt) (simp add: str_def)
  have h2: "generateContent (scripted [Text []]) (length (calls startedApp))
     [TextPart (polishPrompt (str ''Hallo Welt''))] = Text []"
    by (simp add: scripted_def startedApp_eq)
  from empty_polish_result_stops [OF h1 h2] h1 h2 show ?thesis
    by (simp add: startedApp_eq emptyNote_def)
qed

text \<open>
  The claim C3 as stated fails: in a run where the transcription is \<open>Hallo Welt\<close> and
  the polish call returns the empty text, the session makes two service calls, the
  transcribe call and the polish call; no summarize call follows, and the summary stays
  empty.
\<close>

theorem empty_polish_skips_summarize_counterexample:
  "calls (getTranscription (scripted [Text (str ''Hallo Welt''), Text []])
            (str ''QUJD'') (str ''audio/webm'') startedApp) =
     [([TextPart transcribeInstruction, InlineData (str ''audio/webm'') (str ''QUJD'')],
       Text (str ''Hallo Welt'')),
      ([TextPart (polishPrompt (str ''Hallo Welt''))], Text [])] \<and>
   currentSummary (getTranscription (scripted [Text (str ''Hallo Welt''), Text []])
            (str ''QUJD'') (str ''audio/webm'') startedApp) = []"
proof -
  have "str ''Hallo Welt'' \<noteq> []"
    by (simp add: str_def)
  then show ?thesis
    by (simp add: getTranscription_def getPolishedNote_def call_def Let_def addTokenUsage_def
        setPolished_def scripted_def startedApp_eq trim_Hallo_Welt)
qed

section \<open>Properties of the persistent history\<close>

lemma findIndex_Some:
  "findIndex P xs = Some i \<Longrightarrow> i < length xs \<and> P (xs ! i) \<and> (\<forall>j < i. \<not> P (xs ! j))"
proof (induction xs arbitrary: i)
  case Nil
  then show ?case by simp
next
  case (Cons x xs)
  show ?case
  proof (cases "P x")
    case True
    with Cons.prems show ?thesis by simp
  next
    case False
    with Cons.prems obtain k where k: "findIndex P xs = Some k" and i: "i = Suc k"
      by (auto split: option.splits)
    from Cons.IH [OF k] have "k < length xs" "P (xs ! k)" "\<forall>j < k. \<not> P (xs ! j)"
      by simp_all
    with False i show ?thesis
      by (auto simp: nth_Cons split: nat.splits)
  qed
qed

lemma findIndex_None: "(findIndex P xs = None) = (\<forall>x \<in> set xs. \<not> P x)"
  by (induction xs) (auto split: option.splits)

lemma getHistory_save:
  "getHistory (snd (saveNoteToHistory n s)) =
     take 50 (case findIndex (\<lambda>h. note_id h = note_id n) (getHistory s) of
                Some i \<Rightarrow> (getHistory s)[i := stamped s n]
              | None \<Rightarrow> stamped s n # getHistory s)"
  by (simp add: saveNoteToHistory_def Let_def getHistory_def stamped_def split: option.splits)

lemma session_fields_save:
  "currentSummary (snd (saveNoteToHistory n s)) = currentSummary s \<and>
   currentSessionTokens (snd (saveNoteToHistory n s)) = currentSessionTokens s \<and>
   currentNote (snd (saveNoteToHistory n s)) = currentNote s \<and>
   calls (snd (saveNoteToHistory n s)) = calls s \<and>
   fst (saveNoteToHistory n s) = stamped s n"
  by (simp add: saveNoteToHistory_def Let_def stamped_def)

lemma length_save: "length (getHistory (snd (saveNoteToHistory n s))) \<le> 50"
  by (simp add: getHistory_save)

lemma length_saveAll:
  "length (getHistory s) \<le> 50 \<Longrightarrow> length (getHistory (saveAll ns s)) \<le> 50"
proof (induction ns arbitrary: s)
  case Nil
  then show ?case by (simp add: saveAll_def)
next
  case (Cons n ns)
  have "length (getHistory (saveAll ns (snd (saveNoteToHistory n s)))) \<le> 50"
    by (rule Cons.IH) (rule length_save)
  then show ?case by (simp add: saveAll_def)
qed

lemma save_new_id:
  assumes "note_id n \<notin> note_id ` set (getHistory s)"
  shows "getHistory (snd (saveNoteToHistory n s)) = take 50 (stamped s n # getHistory s)"
proof -
  have "\<forall>x \<in> set (getHistory s). note_id x \<noteq> note_id n"
  proof (intro ballI notI)
    fix x
    assume "x \<in> set (getHistory s)" and "note_id x = note_id n"
    then have "note_id n \<in> note_id ` set (getHistory s)"
      by (metis imageI)
    with assms show False ..
  qed
  then have "findIndex (\<lambda>h. note_id h = note_id n) (getHistory s) = None"
    by (simp only: findIndex_None)
  then show ?thesis
    by (simp add: getHistory_save)
qed

lemma take_49_butlast: "length xs = 50 \<Longrightarrow> take 49 xs = butlast xs"
  by (simp add: butlast_conv_take)

text \<open>
  C4. From a history of at most 50 entries, after any sequence of notes saved with
  \<open>saveNoteToHistory\<close> the stored list has at most 50 entries; and saving, at that point,
  a note whose id is not in the list puts it in front of the others, which keep their
  order: the list is the new note followed by the old list, cut to 50. So a list of fewer
  than 50 entries gains the note and loses nothing, and a list of 50 entries loses its
  last (oldest) entry and no other.
\<close>

theorem history_capped_most_recent_first:
  assumes "length (getHistory s) \<le> 50"
  shows "length (getHistory (saveAll ns s)) \<le> 50 \<and>
         (note_id n \<notin> note_id ` set (getHistory (saveAll ns s)) \<longrightarrow>
            getHistory (snd (saveNoteToHistory n (saveAll ns s))) =
              take 50 (stamped (saveAll ns s) n # getHistory (saveAll ns s)) \<and>
            hd (getHistory (snd (saveNoteToHistory n (saveAll ns s)))) = stamped (saveAll ns s) n \<and>
            (length (getHistory (saveAll ns s)) < 50 \<longrightarrow>
               getHistory (snd (saveNoteToHistory n (saveAll ns s))) =
                 stamped (saveAll ns s) n # getHistory (saveAll ns s)) \<and>
            (length (getHistory (saveAll ns s)) = 50 \<longrightarrow>
               getHistory (snd (saveNoteToHistory n (saveAll ns s))) =
                 stamped (saveAll ns s) n # butlast (getHistory (saveAll ns s))))"
proof -
  define t where "t = saveAll ns s"
  have "length (getHistory t) \<le> 50"
    unfolding t_def using assms by (rule length_saveAll)
  moreover have "getHistory (snd (saveNoteToHistory n t)) = take 50 (stamped t n # getHistory t)"
    if "note_id n \<notin> note_id ` set (getHistory t)"
    using that by (rule save_new_id)
  moreover have "take 50 (stamped t n # getHistory t) = stamped t n # butlast (getHistory t)"
    if "length (getHistory t) = 50"
    using that by (simp add: take_Cons' take_49_butlast)
  moreover have "take 50 (stamped t n # getHistory t) = stamped t n # getHistory t"
    if "length (getHistory t) < 50"
    using that by simp
  moreover have "hd (take 50 (stamped t n # getHistory t)) = stamped t n"
    by (simp add: take_Cons')
  ultimately show ?thesis
    unfolding t_def [symmetric] by simp
qed

lemma save_existing_id:
  assumes "note_id n \<in> note_id ` set (getHistory s)" and "length (getHistory s) \<le> 50"
  shows "\<exists>i < length (getHistory s).
           note_id (getHistory s ! i) = note_id n \<and>
           (\<forall>j < i. note_id (getHistory s ! j) \<noteq> note_id n) \<and>
           getHistory (snd (saveNoteToHistory n s)) = (getHistory s)[i := stamped s n] \<and>
           length (getHistory (snd (saveNoteToHistory n s))) = length (getHistory s) \<and>
           map note_id (getHistory (snd (saveNoteToHistory n s))) = map note_id (getHistory s)"
proof -
  from assms(1) obtain i where i: "findIndex (\<lambda>h. note_id h = note_id n) (getHistory s) = Some i"
    by (cases "findIndex (\<lambda>h. note_id h = note_id n) (getHistory s)") (auto simp: findIndex_None)
  from findIndex_Some [OF i] have lt: "i < length (getHistory s)"
    and at: "note_id (getHistory s ! i) = note_id n"
    and first: "\<forall>j < i. note_id (getHistory s ! j) \<noteq> note_id n"
    by simp_all
  have eq: "getHistory (snd (saveNoteToHistory n s)) = (getHistory s)[i := stamped s n]"
    using i assms(2) by (simp add: getHistory_save)
  have "note_id (stamped s n) = note_id n"
    by (simp add: stamped_def)
  with at have "map note_id ((getHistory s)[i := stamped s n]) = map note_id (getHistory s)"
    by (simp add: map_update list_update_same_conv lt)
  with lt at first eq show ?thesis
    by auto
qed

text \<open>
  C5. In a history of at most 50 entries (the store's capacity), saving a note whose id
  already occurs replaces the first entry with that id, where it stands: the stored list
  is the old list with the entry at that index replaced by the note (stamped with the
  session's summary and token count); it has the same length and the same ids in the same
  order. The entry is not moved to the front.
\<close>

theorem upsert_existing_in_place:
  assumes "note_id n \<in> note_id ` set (getHistory s)" and "length (getHistory s) \<le> 50"
  shows "\<exists>i < length (getHistory s).
           note_id (getHistory s ! i) = note_id n \<and>
           (\<forall>j < i. note_id (getHistory s ! j) \<noteq> note_id n) \<and>
           getHistory (snd (saveNoteToHistory n s)) = (getHistory s)[i := stamped s n] \<and>
           length (getHistory (snd (saveNoteToHistory n s))) = length (getHistory s) \<and>
           map note_id (getHistory (snd (saveNoteToHistory n s))) = map note_id (getHistory s)"
  using assms by (rule save_existing_id)

lemma fullHistory_length: "length (getHistory fullHistoryApp) = 50"
  by (simp add: fullHistoryApp_def getHistory_def freshApp_def)

lemma fullHistory_ids: "note_id ` set (getHistory fullHistoryApp) = (\<lambda>k. [k]) ` {0..<50}"
  by (simp add: fullHistoryApp_def getHistory_def freshApp_def emptyNote_def image_image)

theorem history_capped_most_recent_first_witness:
  "length (getHistory fullHistoryApp) \<le> 50 \<and>
   length (getHistory (saveAll [emptyNote [7] 99] fullHistoryApp)) \<le> 50 \<and>
   getHistory (snd (saveNoteToHistory (emptyNote [50] 50) (saveAll [emptyNote [7] 99] fullHistoryApp))) =
     stamped (saveAll [emptyNote [7] 99] fullHistoryApp) (emptyNote [50] 50) #
     butlast (getHistory (saveAll [emptyNote [7] 99] fullHistoryApp))"
proof -
  have h: "length (getHistory fullHistoryApp) \<le> 50"
    by (simp add: fullHistory_length)
  have e: "saveAll [emptyNote [7] 99] fullHistoryApp =
      snd (saveNoteToHistory (emptyNote [7] 99) fullHistoryApp)"
    by (simp add: saveAll_def)
  have old: "note_id (emptyNote [7] 99) \<in> note_id ` set (getHistory fullHistoryApp)"
    by (simp add: fullHistory_ids emptyNote_def)
  from save_existing_id [OF old h]
  have len: "length (getHistory (saveAll [emptyNote [7] 99] fullHistoryApp)) = 50"
    and ids: "map note_id (getHistory (saveAll [emptyNote [7] 99] fullHistoryApp)) =
      map note_id (getHistory fullHistoryApp)"
    by (auto simp: e fullHistory_length)
  have "note_id ` set (getHistory (saveAll [emptyNote [7] 99] fullHistoryApp)) =
      set (map note_id (getHistory (saveAll [emptyNote [7] 99] fullHistoryApp)))"
    by simp
  also have "\<dots> = note_id ` set (getHistory fullHistoryApp)"
    unfolding ids by simp
  finally have new: "note_id (emptyNote [50] 50) \<notin>
      note_id ` set (getHistory (saveAll [emptyNote [7] 99] fullHistoryApp))"
    by (auto simp: fullHistory_ids emptyNote_def)
  from history_capped_most_recent_first [OF h, of "[emptyNote [7] 99]" "emptyNote [50] 50"]
    new len h
  show ?thesis
    by blast
qed

theorem upsert_existing_in_place_witness:
  "note_id (emptyNote [7] 99) \<in> note_id ` set (getHistory fullHistoryApp) \<and>
   length (getHistory fullHistoryApp) \<le> 50 \<and>
   length (getHistory (snd (saveNoteToHistory (emptyNote [7] 99) fullHistoryApp))) = 50 \<and>
   map note_id (getHistory (snd (saveNoteToHistory (emptyNote [7] 99) fullHistoryApp))) =
     map note_id (getHistory fullHistoryApp)"
proof -
  have h1: "note_id (emptyNote [7] 99) \<in> note_id ` set (getHistory fullHistoryApp)"
    by (simp add: fullHistory_ids emptyNote_def)
  have h2: "length (getHistory fullHistoryApp) \<le> 50"
    by (simp add: fullHistory_length)
  from upsert_existing_in_place [OF h1 h2] h1 h2 fullHistory_length show ?thesis
    by auto
qed

section \<open>Properties of the note session\<close>

lemma storage_createNewNote:
  "voiceNotesHistory (createNewNote a b s) =
     (case currentNote s of
        Some n \<Rightarrow> if dirty n then voiceNotesHistory (snd (saveNoteToHistory n s))
                  else voiceNotesHistory s
      | None \<Rightarrow> voiceNotesHistory s)"
  by (simp add: createNewNote_def Let_def split: option.splits prod.splits)

lemma current_createNewNote:
  "currentNote (createNewNote a b s) = Some (emptyNote (str ''note_'' @ decimal a) b)"
  by (simp add: createNewNote_def Let_def emptyNote_def split: option.splits prod.splits)

lemma emptyNote_clean: "\<not> dirty (emptyNote i t)"
  by (simp add: dirty_def emptyNote_def)

lemma storage_createNewNote_twice:
  "voiceNotesHistory (createNewNote c d (createNewNote a b s)) =
   voiceNotesHistory (createNewNote a b s)"
  by (simp add: storage_createNewNote [of c d] current_createNewNote emptyNote_clean)

lemma getHistory_cong: "voiceNotesHistory s = voiceNotesHistory t \<Longrightarrow> getHistory s = getHistory t"
  by (simp add: getHistory_def)

lemma saved_note_stored:
  assumes "length (getHistory s) \<le> 50"
  shows "stamped s n \<in> set (getHistory (snd (saveNoteToHistory n s)))"
proof (cases "findIndex (\<lambda>h. note_id h = note_id n) (getHistory s)")
  case None
  then show ?thesis
    by (simp add: getHistory_save take_Cons')
next
  case (Some i)
  from findIndex_Some [OF Some] have "i < length (getHistory s)"
    by simp
  then show ?thesis
    using Some assms by (simp add: getHistory_save set_update_memI)
qed

text \<open>
  C9. \<open>createNewNote\<close> writes the history exactly when there is an outgoing note that is
  dirty (non-empty transcription or non-empty markdown), and what it writes is what
  \<open>saveNoteToHistory\<close> stores for that note; the stored list (of at most 50 entries) then
  holds the stamped note. With a clean outgoing note the history is unchanged, and a
  second \<open>createNewNote\<close> right after the first never changes it: the note the first
  call created is empty.
\<close>

theorem createNewNote_commits_iff_dirty:
  "voiceNotesHistory (createNewNote a b s) =
     (case currentNote s of
        Some n \<Rightarrow> if dirty n then voiceNotesHistory (snd (saveNoteToHistory n s))
                  else voiceNotesHistory s
      | None \<Rightarrow> voiceNotesHistory s) \<and>
   (currentNote s = Some n \<and> dirty n \<and> length (getHistory s) \<le> 50 \<longrightarrow>
      stamped s n \<in> set (getHistory (createNewNote a b s))) \<and>
   (currentNote s = Some n \<and> \<not> dirty n \<longrightarrow>
      getHistory (createNewNote a b s) = getHistory s \<and>
      getHistory (createNewNote c d (createNewNote a b s)) = getHistory s) \<and>
   voiceNotesHistory (createNewNote c d (createNewNote a b s)) =
     voiceNotesHistory (createNewNote a b s)"
proof (intro conjI impI)
  show "voiceNotesHistory (createNewNote a b s) =
     (case currentNote s of
        Some n \<Rightarrow> if dirty n then voiceNotesHistory (snd (saveNoteToHistory n s))
                  else voiceNotesHistory s
      | None \<Rightarrow> voiceNotesHistory s)"
    by (rule storage_createNewNote)
next
  assume h: "currentNote s = Some n \<and> dirty n \<and> length (getHistory s) \<le> 50"
  then have "voiceNotesHistory (createNewNote a b s) = voiceNotesHistory (snd (saveNoteToHistory n s))"
    by (simp add: storage_createNewNote)
  then have "getHistory (createNewNote a b s) = getHistory (snd (saveNoteToHistory n s))"
    by (rule getHistory_cong)
  moreover have "stamped s n \<in> set (getHistory (snd (saveNoteToHistory n s)))"
    using h by (intro saved_note_stored) simp
  ultimately show "stamped s n \<in> set (getHistory (createNewNote a b s))"
    by simp
next
  assume h: "currentNote s = Some n \<and> \<not> dirty n"
  show first: "getHistory (createNewNote a b s) = getHistory s"
    by (rule getHistory_cong) (use h in \<open>simp add: storage_createNewNote\<close>)
  have "getHistory (createNewNote c d (createNewNote a b s)) = getHistory (createNewNote a b s)"
    by (rule getHistory_cong) (rule storage_createNewNote_twice)
  with first show "getHistory (createNewNote c d (createNewNote a b s)) = getHistory s"
    by simp
next
  show "voiceNotesHistory (createNewNote c d (createNewNote a b s)) =
     voiceNotesHistory (createNewNote a b s)"
    by (rule storage_createNewNote_twice)
qed

theorem createNewNote_commits_iff_dirty_witness:
  "currentNote (startedApp\<lparr>currentNote := Some (emptyNote [1] 1\<lparr>rawTranscription := str ''Hallo''\<rparr>)\<rparr>) =
     Some (emptyNote [1] 1\<lparr>rawTranscription := str ''Hallo''\<rparr>) \<and>
   dirty (emptyNote [1] 1\<lparr>rawTranscription := str ''Hallo''\<rparr>) \<and>
   length (getHistory (startedApp\<lparr>currentNote := Some (emptyNote [1] 1\<lparr>rawTranscription := str ''Hallo''\<rparr>)\<rparr>)) \<le> 50 \<and>
   getHistory (createNewNote 2000 2000
       (startedApp\<lparr>currentNote := Some (emptyNote [1] 1\<lparr>rawTranscription := str ''Hallo''\<rparr>)\<rparr>)) =
     [emptyNote [1] 1\<lparr>rawTranscription := str ''Hallo''\<rparr>] \<and>
   currentNote startedApp = Some (emptyNote (str ''note_1000'') 1000) \<and>
   \<not> dirty (emptyNote (str ''note_1000'') 1000) \<and>
   getHistory (createNewNote 3000 3000 (createNewNote 2000 2000 startedApp)) = [] \<and>
   getHistory startedApp = []"
proof -
  let ?n = "emptyNote [1] 1\<lparr>rawTranscription := str ''Hallo''\<rparr>"
  let ?s = "startedApp\<lparr>currentNote := Some ?n\<rparr>"
  have d: "dirty ?n"
    by (simp add: dirty_def str_def)
  have l: "length (getHistory ?s) \<le> 50" and g: "getHistory startedApp = []"
    by (simp_all add: getHistory_def startedApp_eq)
  have c: "currentNote startedApp = Some (emptyNote (str ''note_1000'') 1000)"
    by (simp add: startedApp_eq)
  have "getHistory (createNewNote 2000 2000 ?s) = getHistory (snd (saveNoteToHistory ?n ?s))"
    using d createNewNote_commits_iff_dirty [of 2000 2000 ?s ?n 3000 3000]
    by (intro getHistory_cong) simp
  also have "\<dots> = [?n]"
    by (simp only: getHistory_save) (simp add: stamped_def getHistory_def startedApp_eq emptyNote_def)
  finally have one: "getHistory (createNewNote 2000 2000 ?s) = [?n]" .
  have two: "getHistory (createNewNote 3000 3000 (createNewNote 2000 2000 startedApp)) = []"
    using createNewNote_commits_iff_dirty [of 2000 2000 startedApp "emptyNote (str ''note_1000'') 1000" 3000 3000]
      c emptyNote_clean g by simp
  from d l one c two g emptyNote_clean show ?thesis
    by simp
qed

text \<open>
  Deleting a note that is not the current one removes its id from a history of distinct
  ids.
\<close>

lemma removed_from_distinct:
  assumes "distinct xs" and "i < length xs"
  shows "xs ! i \<notin> set (take i xs @ drop (Suc i) xs)"
proof -
  have "distinct (take i xs @ xs ! i # drop (Suc i) xs)"
    using assms by (simp add: id_take_nth_drop [symmetric])
  then show ?thesis
    by auto
qed

lemma deleteNote_other_note_removed:
  assumes "distinct (map note_id (getHistory s))"
    and "\<forall>n. currentNote s = Some n \<longrightarrow> note_id n \<noteq> noteId"
  shows "noteId \<notin> note_id ` set (getHistory (deleteNote noteId True a b s))"
proof (cases "findIndex (\<lambda>h. note_id h = noteId) (getHistory s)")
  case None
  then have "\<forall>x \<in> set (getHistory s). note_id x \<noteq> noteId"
    by (simp only: findIndex_None)
  then have "noteId \<notin> note_id ` set (getHistory s)"
    by auto
  then show ?thesis
    using None by (simp add: deleteNote_def Let_def)
next
  case (Some i)
  from findIndex_Some [OF Some] have lt: "i < length (getHistory s)"
    and at: "note_id (getHistory s ! i) = noteId"
    by simp_all
  have "map note_id (getHistory s) ! i \<notin>
      set (take i (map note_id (getHistory s)) @ drop (Suc i) (map note_id (getHistory s)))"
    using assms(1) lt by (intro removed_from_distinct) simp_all
  then have "noteId \<notin> note_id ` set (take i (getHistory s) @ drop (Suc i) (getHistory s))"
    using lt at by (simp add: take_map drop_map image_Un)
  moreover have "getHistory (deleteNote noteId True a b s) =
      take i (getHistory s) @ drop (Suc i) (getHistory s)"
    using Some assms(2) by (simp add: deleteNote_def Let_def getHistory_def split: option.splits)
  ultimately show ?thesis
    by simp
qed

text \<open>
  C2, on the code. The program is started on a stored history holding the note
  \<open>note_1\<close>, the user opens that note and then deletes it, confirming the dialog.
  \<open>deleteNote\<close> removes the entry and, the note being the current one, calls
  \<open>createNewNote\<close>, which finds the outgoing current note dirty and saves it: the stored
  history holds \<open>note_1\<close> again.
\<close>

theorem deleteNote_current_note_survives:
  "map note_id (getHistory reopenedApp) = [str ''note_1''] \<and>
   map_option note_id (currentNote reopenedApp) = Some (str ''note_1'') \<and>
   map note_id (getHistory (deleteNote (str ''note_1'') True 2000 2000 reopenedApp)) = [str ''note_1''] \<and>
   map_option note_id (currentNote (deleteNote (str ''note_1'') True 2000 2000 reopenedApp)) =
     Some (str ''note_2000'')"
  by (simp add: reopenedApp_def storedNote_def loadNoteFromHistory_def createNewNote_def
      deleteNote_def saveNoteToHistory_def getHistory_def freshApp_def emptyNote_def dirty_def
      Let_def decimal.simps str_def)

section \<open>Capacity of the stored history\<close>

text \<open>
  No operation of a session makes a stored history of at most 50 entries longer than 50.
\<close>

lemma storage_pipeline:
  "voiceNotesHistory (addTokenUsage i out s) = voiceNotesHistory s"
  "voiceNotesHistory (setPolished md html s) = voiceNotesHistory s"
  "voiceNotesHistory (updateSummary env md s) = voiceNotesHistory s"
  by (simp_all add: addTokenUsage_def setPolished_def updateSummary_def call_def Let_def
      split: response.splits)

lemma storage_getPolishedNote:
  "voiceNotesHistory (getPolishedNote env raw s) = voiceNotesHistory s"
  by (simp add: getPolishedNote_def call_def Let_def storage_pipeline split: response.splits)

lemma storage_getTranscription:
  "voiceNotesHistory (getTranscription env a m s) = voiceNotesHistory s"
  by (simp add: getTranscription_def call_def Let_def storage_pipeline storage_getPolishedNote
      split: response.splits)

lemma capacity_updateNoteTitle:
  "length (getHistory (updateNoteTitle noteId newTitle s)) = length (getHistory s)"
  by (simp add: updateNoteTitle_def Let_def getHistory_def split: option.splits)

lemma capacity_createNewNote:
  assumes "length (getHistory s) \<le> 50"
  shows "length (getHistory (createNewNote a b s)) \<le> 50"
proof (cases "\<exists>n. currentNote s = Some n \<and> dirty n")
  case True
  then obtain n where "currentNote s = Some n" and "dirty n"
    by blast
  then have "voiceNotesHistory (createNewNote a b s) = voiceNotesHistory (snd (saveNoteToHistory n s))"
    by (simp add: storage_createNewNote)
  then have "getHistory (createNewNote a b s) = getHistory (snd (saveNoteToHistory n s))"
    by (rule getHistory_cong)
  then show ?thesis
    using length_save [of n s] by simp
next
  case False
  then have "voiceNotesHistory (createNewNote a b s) = voiceNotesHistory s"
    by (auto simp: storage_createNewNote split: option.splits)
  then have "getHistory (createNewNote a b s) = getHistory s"
    by (rule getHistory_cong)
  then show ?thesis
    using assms by simp
qed

lemma capacity_loadNoteFromHistory:
  assumes "length (getHistory s) \<le> 50"
  shows "length (getHistory (loadNoteFromHistory noteId editorText s)) \<le> 50"
proof -
  have "length (getHistory (case saveNoteToHistory c t of (c', t') \<Rightarrow> t'\<lparr>currentNote := Some c'\<rparr>)) \<le> 50"
    for c t
    using length_save [of c t] by (cases "saveNoteToHistory c t") (simp add: getHistory_def)
  then show ?thesis
    using assms
    by (simp add: loadNoteFromHistory_def Let_def getHistory_def [of "_\<lparr>currentNote := _, currentSummary := _, currentSessionTokens := _\<rparr>"]
        split: option.splits)
      (simp add: getHistory_def)
qed

lemma capacity_deleteNote:
  assumes "length (getHistory s) \<le> 50"
  shows "length (getHistory (deleteNote noteId confirmDelete a b s)) \<le> 50"
proof (cases "findIndex (\<lambda>h. note_id h = noteId) (getHistory s)")
  case None
  then show ?thesis
    using assms by (simp add: deleteNote_def Let_def)
next
  case (Some i)
  let ?s1 = "s\<lparr>voiceNotesHistory := Json (take i (getHistory s) @ drop (Suc i) (getHistory s))\<rparr>"
  have "length (getHistory ?s1) \<le> 50"
    using assms by (simp add: getHistory_def)
  then have "length (getHistory (createNewNote a b ?s1)) \<le> 50"
    by (rule capacity_createNewNote)
  with \<open>length (getHistory ?s1) \<le> 50\<close> show ?thesis
    using Some assms by (simp add: deleteNote_def Let_def split: option.splits)
qed

lemma capacity_perform:
  assumes "length (getHistory s) \<le> 50"
  shows "length (getHistory (perform env op s)) \<le> 50"
proof (cases op)
  case SaveCurrentNote
  show ?thesis
  proof (cases "currentNote s")
    case None
    then show ?thesis
      using assms SaveCurrentNote by simp
  next
    case (Some n)
    then show ?thesis
      using length_save [of n s] SaveCurrentNote
      by (cases "saveNoteToHistory n s") (simp add: getHistory_def)
  qed
qed (use assms in \<open>simp_all add: capacity_createNewNote capacity_loadNoteFromHistory
      capacity_deleteNote capacity_updateNoteTitle
      getHistory_cong [OF storage_getTranscription] getHistory_cong [OF storage_getPolishedNote]
      getHistory_cong [OF storage_pipeline(1)] getHistory_cong [OF storage_pipeline(3)]\<close>)

lemma capacity_session:
  "length (getHistory s) \<le> 50 \<Longrightarrow> length (getHistory (session env ops s)) \<le> 50"
proof (induction ops arbitrary: s)
  case Nil
  then show ?case by (simp add: session_def)
next
  case (Cons op ops)
  have "length (getHistory (perform env op s)) \<le> 50"
    using Cons.prems by (rule capacity_perform)
  then have "length (getHistory (session env ops (perform env op s))) \<le> 50"
    by (rule Cons.IH)
  then show ?case by (simp add: session_def)
qed

section \<open>Properties of the polished fields\<close>

lemma notes_rendered_iff:
  "notes_rendered env s =
     ((case currentNote s of None \<Rightarrow> True | Some n \<Rightarrow> rendered env n) \<and>
      list_all (rendered env) (getHistory s))"
  by (simp add: notes_rendered_def all_notes_def split: option.splits)

lemma rendered_frame:
  "rendered env (n\<lparr>totalTokens := k\<rparr>) = rendered env n"
  "rendered env (n\<lparr>summary := x\<rparr>) = rendered env n"
  "rendered env (n\<lparr>title := x\<rparr>) = rendered env n"
  "rendered env (n\<lparr>rawTranscription := x\<rparr>) = rendered env n"
  "rendered env (stamped s n) = rendered env n"
  by (simp_all add: rendered_def stamped_def)

lemma rendered_setPolished:
  "md = [] \<or> html = marked_parse env md \<Longrightarrow>
   rendered env (n\<lparr>polishedNoteMarkdown := md, polishedNoteHtml := html\<rparr>)"
  by (auto simp: rendered_def)

lemma notes_rendered_frame:
  "notes_rendered env (s\<lparr>currentSummary := x\<rparr>) = notes_rendered env s"
  "notes_rendered env (s\<lparr>calls := c\<rparr>) = notes_rendered env s"
  "notes_rendered env (s\<lparr>currentSessionTokens := k\<rparr>) = notes_rendered env s"
  "notes_rendered env (s\<lparr>isRecording := b\<rparr>) = notes_rendered env s"
  by (simp_all add: notes_rendered_iff getHistory_def)

lemma notes_rendered_current:
  "notes_rendered env (s\<lparr>currentNote := Some n\<rparr>) =
     (rendered env n \<and> list_all (rendered env) (getHistory s))"
  by (simp add: notes_rendered_iff getHistory_def)

lemma notes_rendered_history: "notes_rendered env s \<Longrightarrow> list_all (rendered env) (getHistory s)"
  by (simp add: notes_rendered_iff)

lemma notes_rendered_storage:
  "notes_rendered env (s\<lparr>voiceNotesHistory := Json h\<rparr>) =
     ((case currentNote s of None \<Rightarrow> True | Some n \<Rightarrow> rendered env n) \<and> list_all (rendered env) h)"
  by (simp add: notes_rendered_iff getHistory_def)

lemma inv_map_current:
  assumes "notes_rendered env s" and "\<And>n. rendered env n \<Longrightarrow> rendered env (f n)"
  shows "notes_rendered env (s\<lparr>currentNote := map_option f (currentNote s)\<rparr>)"
  using assms by (auto simp: notes_rendered_iff getHistory_def split: option.splits)

lemma inv_addTokenUsage:
  "notes_rendered env s \<Longrightarrow> notes_rendered env (addTokenUsage i out s)"
  by (auto simp: notes_rendered_iff addTokenUsage_def Let_def getHistory_def rendered_frame
      split: option.splits)

lemma inv_setPolished:
  assumes "notes_rendered env s" and "md = [] \<or> html = marked_parse env md"
  shows "notes_rendered env (setPolished md html s)"
  unfolding setPolished_def
  using assms(1) by (rule inv_map_current) (rule rendered_setPolished [OF assms(2)])

lemma inv_updateSummary:
  "notes_rendered env s \<Longrightarrow> notes_rendered env (updateSummary env md s)"
  by (auto simp: updateSummary_def call_def Let_def notes_rendered_frame inv_addTokenUsage
      split: response.splits)

lemma inv_getPolishedNote:
  assumes "notes_rendered env s"
  shows "notes_rendered env (getPolishedNote env raw s)"
proof (cases "raw = [] \<or> trim raw = []")
  case True
  then show ?thesis
    using assms by (simp add: getPolishedNote_def inv_setPolished)
next
  case False
  let ?c = "[TextPart (polishPrompt raw)]"
  let ?s1 = "s\<lparr>calls := calls s @ [(?c, generateContent env (length (calls s)) ?c)]\<rparr>"
  have s1: "notes_rendered env ?s1"
    using assms by (simp add: notes_rendered_frame)
  show ?thesis
  proof (cases "generateContent env (length (calls s)) ?c")
    case (Throws m)
    then show ?thesis
      using False s1 by (simp add: getPolishedNote_def call_def Let_def inv_setPolished)
  next
    case (Text t)
    have "notes_rendered env (addTokenUsage (estimateTokens (polishPrompt raw)) (estimateTokens t) ?s1)"
      using s1 by (rule inv_addTokenUsage)
    then show ?thesis
      using False Text
      by (auto simp: getPolishedNote_def call_def Let_def inv_setPolished inv_updateSummary)
  qed
qed

lemma inv_getTranscription:
  assumes "notes_rendered env s"
  shows "notes_rendered env (getTranscription env a m s)"
proof -
  let ?c = "[TextPart transcribeInstruction, InlineData m a]"
  let ?s1 = "s\<lparr>calls := calls s @ [(?c, generateContent env (length (calls s)) ?c)]\<rparr>"
  have s1: "notes_rendered env ?s1"
    using assms by (simp add: notes_rendered_frame)
  show ?thesis
  proof (cases "generateContent env (length (calls s)) ?c")
    case (Throws e)
    then show ?thesis
      using s1 by (simp add: getTranscription_def call_def Let_def)
  next
    case (Text t)
    have s2: "notes_rendered env (addTokenUsage (estimateTokens transcribeInstruction) (estimateTokens t) ?s1)"
      (is "notes_rendered env ?s2")
      using s1 by (rule inv_addTokenUsage)
    have "notes_rendered env
        (?s2\<lparr>currentNote := map_option (\<lambda>n. n\<lparr>rawTranscription := t\<rparr>) (currentNote ?s2)\<rparr>)"
      using s2 by (rule inv_map_current) (simp add: rendered_frame)
    then have "notes_rendered env (getPolishedNote env t
        (?s2\<lparr>currentNote := map_option (\<lambda>n. n\<lparr>rawTranscription := t\<rparr>) (currentNote ?s2)\<rparr>))"
      by (rule inv_getPolishedNote)
    with s2 show ?thesis
      using Text by (auto simp: getTranscription_def call_def Let_def)
  qed
qed

lemma list_all_take: "list_all P xs \<Longrightarrow> list_all P (take k xs)"
  by (auto simp: list_all_iff dest: in_set_takeD)

lemma list_all_drop: "list_all P xs \<Longrightarrow> list_all P (drop k xs)"
  by (auto simp: list_all_iff dest: in_set_dropD)

lemma list_all_update: "list_all P xs \<Longrightarrow> P x \<Longrightarrow> list_all P (xs[i := x])"
  by (auto simp: list_all_iff dest: set_update_subset_insert [THEN subsetD])

lemma inv_saveNoteToHistory:
  assumes "notes_rendered env s" and "rendered env n"
  shows "notes_rendered env (snd (saveNoteToHistory n s))"
proof -
  have h: "list_all (rendered env) (getHistory s)"
    using assms(1) by (rule notes_rendered_history)
  have n: "rendered env (stamped s n)"
    using assms(2) by (simp add: rendered_frame)
  have "list_all (rendered env) (getHistory (snd (saveNoteToHistory n s)))"
    unfolding getHistory_save
    by (rule list_all_take) (use h n in \<open>auto simp: list_all_update split: option.splits\<close>)
  moreover have "currentNote (snd (saveNoteToHistory n s)) = currentNote s"
    by (simp add: session_fields_save)
  ultimately show ?thesis
    using assms(1) by (simp add: notes_rendered_iff)
qed

lemma inv_save_current:
  assumes "notes_rendered env s" and "currentNote s = Some n"
  shows "notes_rendered env
           (case saveNoteToHistory n s of (n', s') \<Rightarrow> s'\<lparr>currentNote := Some n'\<rparr>)"
proof -
  have r: "rendered env n"
    using assms by (simp add: notes_rendered_iff)
  have "notes_rendered env (snd (saveNoteToHistory n s))"
    using assms(1) r by (rule inv_saveNoteToHistory)
  then have "list_all (rendered env) (getHistory (snd (saveNoteToHistory n s)))"
    by (rule notes_rendered_history)
  moreover have "rendered env (fst (saveNoteToHistory n s))"
    using r by (simp add: session_fields_save rendered_frame)
  ultimately show ?thesis
    by (cases "saveNoteToHistory n s") (simp add: notes_rendered_current)
qed

lemma inv_updateNoteTitle:
  assumes "notes_rendered env s"
  shows "notes_rendered env (updateNoteTitle noteId newTitle s)"
proof (cases "findIndex (\<lambda>h. note_id h = noteId) (getHistory s)")
  case None
  then show ?thesis
    using assms by (simp add: updateNoteTitle_def Let_def)
next
  case (Some i)
  have h: "list_all (rendered env) (getHistory s)"
    using assms by (rule notes_rendered_history)
  from findIndex_Some [OF Some] have "i < length (getHistory s)"
    by simp
  with h have "rendered env (getHistory s ! i)"
    by (simp add: list_all_length)
  then have "rendered env ((getHistory s ! i)\<lparr>title := newTitle\<rparr>)"
    by (simp add: rendered_frame)
  with h have "list_all (rendered env) ((getHistory s)[i := (getHistory s ! i)\<lparr>title := newTitle\<rparr>])"
    by (rule list_all_update)
  moreover have "case currentNote s of None \<Rightarrow> True | Some n \<Rightarrow> rendered env n"
    using assms by (simp add: notes_rendered_iff)
  ultimately show ?thesis
    using Some by (simp add: updateNoteTitle_def Let_def notes_rendered_storage)
qed

lemma rendered_fresh:
  "rendered env \<lparr>note_id = i, title = [], rawTranscription = [], polishedNoteMarkdown = [],
     polishedNoteHtml = [], summary = [], timestamp = t, totalTokens = 0\<rparr>"
  by (simp add: rendered_def)

lemma inv_createNewNote:
  assumes "notes_rendered env s"
  shows "notes_rendered env (createNewNote a b s)"
proof -
  define s1 where "s1 =
     (case currentNote s of
        Some n \<Rightarrow>
          if dirty n then (case saveNoteToHistory n s of (n', s') \<Rightarrow> s'\<lparr>currentNote := Some n'\<rparr>)
          else s
      | None \<Rightarrow> s)"
  have "notes_rendered env s1"
    unfolding s1_def using assms by (auto simp: inv_save_current split: option.splits)
  then have "list_all (rendered env) (getHistory s1)"
    by (rule notes_rendered_history)
  then show ?thesis
    unfolding createNewNote_def Let_def s1_def [symmetric]
    by (simp add: notes_rendered_iff getHistory_def rendered_fresh)
qed

lemma find_in_set: "find P xs = Some x \<Longrightarrow> x \<in> set xs"
  by (auto simp: find_Some_iff)

lemma inv_loadNoteFromHistory:
  assumes "notes_rendered env s"
  shows "notes_rendered env (loadNoteFromHistory noteId editorText s)"
proof (cases "find (\<lambda>h. note_id h = noteId) (getHistory s)")
  case None
  then show ?thesis
    using assms by (simp add: loadNoteFromHistory_def Let_def)
next
  case (Some found)
  have "list_all (rendered env) (getHistory s)"
    using assms by (rule notes_rendered_history)
  with find_in_set [OF Some] have found: "rendered env found"
    by (simp add: list_all_iff)
  define s1 where "s1 =
     (case currentNote s of
        Some cur \<Rightarrow>
          if dirty cur then
            (let currentEditorTitle = trim editorText;
                 retitle = (currentEditorTitle \<noteq> [] \<and> currentEditorTitle \<noteq> title cur);
                 cur1 = (if retitle then cur\<lparr>title := currentEditorTitle\<rparr> else cur);
                 sa = (if retitle then updateNoteTitle (note_id cur1) currentEditorTitle s else s)
             in case saveNoteToHistory cur1 sa of (cur2, sb) \<Rightarrow> sb\<lparr>currentNote := Some cur2\<rparr>)
          else s
      | None \<Rightarrow> s)"
  have "list_all (rendered env) (getHistory s1)"
  proof (cases "currentNote s")
    case None
    then show ?thesis
      using assms by (simp add: s1_def notes_rendered_history)
  next
    case (Some cur)
    then have cur: "rendered env cur"
      using assms by (simp add: notes_rendered_iff)
    show ?thesis
    proof (cases "dirty cur")
      case False
      then show ?thesis
        using Some assms by (simp add: s1_def notes_rendered_history)
    next
      case True
      define retitle where "retitle = (trim editorText \<noteq> [] \<and> trim editorText \<noteq> title cur)"
      define cur1 where "cur1 = (if retitle then cur\<lparr>title := trim editorText\<rparr> else cur)"
      define sa where "sa = (if retitle then updateNoteTitle (note_id cur1) (trim editorText) s else s)"
      have s1_eq: "s1 = (case saveNoteToHistory cur1 sa of (cur2, sb) \<Rightarrow> sb\<lparr>currentNote := Some cur2\<rparr>)"
        unfolding s1_def using Some True
        by (simp add: Let_def cur1_def sa_def retitle_def)
      have "rendered env cur1"
        using cur by (simp add: cur1_def rendered_frame)
      moreover have "notes_rendered env sa"
        using assms by (simp add: sa_def inv_updateNoteTitle)
      ultimately have "notes_rendered env (snd (saveNoteToHistory cur1 sa))"
        by (intro inv_saveNoteToHistory)
      then have "list_all (rendered env) (getHistory (snd (saveNoteToHistory cur1 sa)))"
        by (rule notes_rendered_history)
      moreover have "getHistory s1 = getHistory (snd (saveNoteToHistory cur1 sa))"
        unfolding s1_eq by (cases "saveNoteToHistory cur1 sa") (simp add: getHistory_def)
      ultimately show ?thesis
        by simp
    qed
  qed
  moreover have "loadNoteFromHistory noteId editorText s =
      s1\<lparr>currentNote := Some found, currentSummary := summary found,
         currentSessionTokens := totalTokens found\<rparr>"
    using Some by (simp add: loadNoteFromHistory_def s1_def Let_def)
  ultimately show ?thesis
    using found by (simp add: notes_rendered_iff getHistory_def)
qed

lemma inv_deleteNote:
  assumes "notes_rendered env s"
  shows "notes_rendered env (deleteNote noteId confirmDelete a b s)"
proof (cases "findIndex (\<lambda>h. note_id h = noteId) (getHistory s)")
  case None
  then show ?thesis
    using assms by (simp add: deleteNote_def Let_def)
next
  case (Some i)
  have h: "list_all (rendered env) (getHistory s)"
    using assms by (rule notes_rendered_history)
  have "list_all (rendered env) (take i (getHistory s) @ drop (Suc i) (getHistory s))"
    using h by (simp add: list_all_take list_all_drop)
  moreover have "case currentNote s of None \<Rightarrow> True | Some n \<Rightarrow> rendered env n"
    using assms by (simp add: notes_rendered_iff)
  ultimately have "notes_rendered env
      (s\<lparr>voiceNotesHistory := Json (take i (getHistory s) @ drop (Suc i) (getHistory s))\<rparr>)"
    by (simp add: notes_rendered_storage)
  then show ?thesis
    using Some assms
    by (auto simp: deleteNote_def Let_def inv_createNewNote split: option.splits)
qed

lemma inv_perform:
  assumes "notes_rendered env s"
  shows "notes_rendered env (perform env op s)"
proof (cases op)
  case SaveCurrentNote
  then show ?thesis
    using assms by (auto simp: inv_save_current split: option.splits)
qed (use assms in \<open>simp_all add: inv_createNewNote inv_loadNoteFromHistory inv_deleteNote
      inv_updateNoteTitle inv_addTokenUsage inv_getTranscription inv_getPolishedNote
      inv_updateSummary\<close>)

lemma inv_session:
  "notes_rendered env s \<Longrightarrow> notes_rendered env (session env ops s)"
proof (induction ops arbitrary: s)
  case Nil
  then show ?case by (simp add: session_def)
next
  case (Cons op ops)
  have "notes_rendered env (perform env op s)"
    using Cons.prems by (rule inv_perform)
  then have "notes_rendered env (session env ops (perform env op s))"
    by (rule Cons.IH)
  then show ?case by (simp add: session_def)
qed

text \<open>
  C1, as the code has it. Through any sequence of session operations and pipeline stages,
  every note of the state, the current one and the stored ones, whose
  \<open>polishedNoteMarkdown\<close> is non-empty has as \<open>polishedNoteHtml\<close> the rendering of that
  markdown, if that held at the start. An empty markdown may come with a non-empty HTML.
\<close>

theorem polished_markdown_rendered:
  assumes "notes_rendered env s"
  shows "notes_rendered env (session env ops s)"
  using assms by (rule inv_session)

theorem polished_markdown_rendered_witness:
  "notes_rendered
     (scripted [Text (str ''Hallo Welt''), Text (str ''# Titel''), Text (str ''Hallo Welt'')])
     startedApp \<and>
   notes_rendered
     (scripted [Text (str ''Hallo Welt''), Text (str ''# Titel''), Text (str ''Hallo Welt'')])
     (session
        (scripted [Text (str ''Hallo Welt''), Text (str ''# Titel''), Text (str ''Hallo Welt'')])
        [GetTranscription (str ''QUJD'') (str ''audio/webm''), CreateNewNote 2000 2000]
        startedApp) \<and>
   map polishedNoteMarkdown
     (all_notes
        (session
           (scripted [Text (str ''Hallo Welt''), Text (str ''# Titel''), Text (str ''Hallo Welt'')])
           [GetTranscription (str ''QUJD'') (str ''audio/webm''), CreateNewNote 2000 2000]
           startedApp)) = [[], str ''# Titel''] \<and>
   map polishedNoteHtml
     (all_notes
        (session
           (scripted [Text (str ''Hallo Welt''), Text (str ''# Titel''), Text (str ''Hallo Welt'')])
           [GetTranscription (str ''QUJD'') (str ''audio/webm''), CreateNewNote 2000 2000]
           startedApp)) = [[], str ''<p># Titel</p>'']"
proof -
  let ?env = "scripted [Text (str ''Hallo Welt''), Text (str ''# Titel''), Text (str ''Hallo Welt'')]"
  let ?ops = "[GetTranscription (str ''QUJD'') (str ''audio/webm''), CreateNewNote 2000 2000]"
  have h: "notes_rendered ?env startedApp"
    by (simp add: notes_rendered_iff startedApp_eq getHistory_def emptyNote_def rendered_def)
  have r: "notes_rendered ?env (session ?env ?ops startedApp)"
    using h by (rule polished_markdown_rendered)
  have t1: "str ''Hallo Welt'' \<noteq> []" and t2: "str ''# Titel'' \<noteq> []"
    by (simp_all add: str_def)
  have md: "map polishedNoteMarkdown (all_notes (session ?env ?ops startedApp)) =
      [[], str ''# Titel'']"
    using t1 t2
    by (simp add: session_def all_notes_def getHistory_def createNewNote_def dirty_def
        saveNoteToHistory_def getTranscription_def getPolishedNote_def updateSummary_def
        call_def Let_def addTokenUsage_def setPolished_def scripted_def startedApp_eq
        trim_Hallo_Welt emptyNote_def)
  have html: "map polishedNoteHtml (all_notes (session ?env ?ops startedApp)) =
      [[], str ''<p># Titel</p>'']"
    using t1 t2
    by (simp add: session_def all_notes_def getHistory_def createNewNote_def dirty_def
        saveNoteToHistory_def getTranscription_def getPolishedNote_def updateSummary_def
        call_def Let_def addTokenUsage_def setPolished_def scripted_def startedApp_eq
        trim_Hallo_Welt emptyNote_def)
      (simp add: str_def)
  from h r md html show ?thesis
    by (intro conjI)
qed

text \<open>
  The claim C1 as stated fails: after a run whose polish call returns the empty text, and
  after a run whose polish call throws, the current note has an empty
  \<open>polishedNoteMarkdown\<close> and a non-empty \<open>polishedNoteHtml\<close> (the placeholder, the
  error message).
\<close>

theorem placeholder_html_counterexample:
  "map_option both_or_neither
     (currentNote (getTranscription (scripted [Text (str ''Hallo Welt''), Text []])
        (str ''QUJD'') (str ''audio/webm'') startedApp)) = Some False \<and>
   map_option both_or_neither
     (currentNote (getTranscription (scripted [Text (str ''Hallo Welt'')])
        (str ''QUJD'') (str ''audio/webm'') startedApp)) = Some False"
proof -
  have "str ''Hallo Welt'' \<noteq> []"
    by (simp add: str_def)
  then show ?thesis
    using emptyPolishMsg_nonempty polishErrorHead_nonempty
    by (simp add: getTranscription_def getPolishedNote_def call_def Let_def addTokenUsage_def
        setPolished_def scripted_def startedApp_eq trim_Hallo_Welt both_or_neither_def emptyNote_def)
qed

end
